theory Spec2Isabelle
  imports Main
begin

section \<open>Strings\<close>

text \<open>
  Attribute names, tag names and messages are JavaScript strings. They are modelled as
  \<^typ>\<open>string\<close>, a list of 8-bit characters: a name is a sequence of code units
  below 256, the first 256 code points of Unicode. On these
  \<open>String.prototype.toLowerCase\<close> adds 32 to the code units of \<open>A\<close>..\<open>Z\<close> and of the
  uppercase letters from \<open>U+00C0\<close> to \<open>U+00DE\<close> (all of that range but the
  multiplication sign \<open>U+00D7\<close>) and leaves every other code unit as it is. \<open>slice(n)\<close>
  drops the first \<open>n\<close> code units; \<open>Array.prototype.join\<close> puts the separator between
  neighbours. \<open>isUpperAZ\<close> is the class \<open>[A-Z]\<close> of a regular expression.
\<close>

definition isUpperAZ :: "char \<Rightarrow> bool" where
  "isUpperAZ c = (65 \<le> (of_char c :: nat) \<and> (of_char c :: nat) \<le> 90)"

definition isUpperCase :: "char \<Rightarrow> bool" where
  "isUpperCase c =
     (isUpperAZ c \<or>
      (192 \<le> (of_char c :: nat) \<and> (of_char c :: nat) \<le> 214) \<or>
      (216 \<le> (of_char c :: nat) \<and> (of_char c :: nat) \<le> 222))"

definition toLowerCase_char :: "char \<Rightarrow> char" where
  "toLowerCase_char c = (if isUpperCase c then char_of ((of_char c :: nat) + 32) else c)"

definition toLowerCase :: "string \<Rightarrow> string" where
  "toLowerCase s = map toLowerCase_char s"

definition slice :: "nat \<Rightarrow> string \<Rightarrow> string" where
  "slice n s = drop n s"

fun join :: "string \<Rightarrow> string list \<Rightarrow> string" where
  "join sep [] = []"
| "join sep [x] = x"
| "join sep (x # y # ys) = x @ sep @ join sep (y # ys)"

section \<open>What the module requires\<close>

text \<open>
  The module reads \<open>DOMProperty.ATTRIBUTE_NAME_CHAR\<close>, \<open>isCustomComponent\<close>,
  \<open>validAriaProperties\<close>, the stack addenda of \<open>ReactGlobalSharedState\<close> and the
  build flag \<open>__DEV__\<close> from elsewhere. They are the fields of an environment:
  \<open>ATTRIBUTE_NAME_CHAR\<close> is the character class that the string denotes inside
  \<open>[...]\<close>, \<open>validAriaProperties\<close> is the set of own keys of the table,
  \<open>ReactDebugCurrentFrame_getStackAddendum\<close> is what the call of
  \<open>ReactDebugCurrentFrame.getStackAddendum()\<close> returns, \<open>None\<close> for \<open>null\<close>.

  A property mapping is the list of its enumerable keys with their values, in the order
  in which \<open>for (var key in props)\<close> visits them; the keys of an object are distinct.

  The block under \<open>if (__DEV__)\<close> (lines 25 to 34) binds \<open>warning\<close>,
  \<open>getStackAddendumByID\<close>, \<open>ReactDebugCurrentFrame\<close> and \<open>validAriaProperties\<close>. The
  fields of the environment are their values in a development build, where \<open>DEV\<close>
  holds. In a production build the block does not run and the four names, declared with
  \<open>var\<close>, are \<open>undefined\<close>: a read of a property of one of them and a call of one of
  them throw \<open>TypeError\<close>.
\<close>

type_synonym 'v props = "(string \<times> 'v) list"

type_synonym debugID = nat

record 'v env =
  DEV :: bool
  ATTRIBUTE_NAME_CHAR :: "char \<Rightarrow> bool"
  validAriaProperties :: "string set"
  isCustomComponent :: "string \<Rightarrow> 'v props \<Rightarrow> bool"
  getStackAddendumByID :: "debugID \<Rightarrow> string"
  ReactDebugCurrentFrame_getStackAddendum :: "string option"

section \<open>State: the warned cache and the emitted diagnostics\<close>

text \<open>
  The state of the module is its object \<open>warnedProperties\<close>, a map from names to
  booleans that starts as \<open>{}\<close>, together with the diagnostics emitted so far, each
  recorded as the format and the arguments of the call of \<open>warning\<close> that emitted it.
\<close>

datatype diagnostic = Warning (format: string) (args: "string list")

record state =
  warnedProperties :: "string \<rightharpoonup> bool"
  emitted :: "diagnostic list"

definition initial_state :: state where
  "initial_state = \<lparr>warnedProperties = Map.empty, emitted = []\<rparr>"

text \<open>
  Modelled from the spec: \<open>warning\<close> is \<open>fbjs/lib/warning\<close>, which is not under
  \<open>src/\<close>; it is the sink \<open>emit(conditionTrue, messageTemplate, ...args)\<close> of the spec,
  which surfaces the message when the condition is false and does nothing otherwise.
\<close>

definition warning :: "bool \<Rightarrow> string \<Rightarrow> string list \<Rightarrow> state \<Rightarrow> state" where
  "warning condition fmt as s =
     (if condition then s else s\<lparr>emitted := emitted s @ [Warning fmt as]\<rparr>)"

text \<open>
  \<open>warnedProperties[name] = true\<close>. The names it is called for are of one of the two
  patterns, so they start with \<open>aria\<close> and the assignment adds or overwrites an own
  property of the object.
\<close>

definition mark_warned :: "string \<Rightarrow> state \<Rightarrow> state" where
  "mark_warned name s = s\<lparr>warnedProperties := (warnedProperties s)(name \<mapsto> True)\<rparr>"

text \<open>\<open>hasOwnProperty.call(warnedProperties, name) && warnedProperties[name]\<close>\<close>

definition warned :: "state \<Rightarrow> string \<Rightarrow> bool" where
  "warned s name = (case warnedProperties s name of None \<Rightarrow> False | Some v \<Rightarrow> v)"

section \<open>The regular expressions\<close>

text \<open>
  \<open>rARIA\<close> is \<open>^(aria)-[ATTRIBUTE_NAME_CHAR]*$\<close> and \<open>rARIACamel\<close> is
  \<open>^(aria)[A-Z][ATTRIBUTE_NAME_CHAR]*$\<close>; \<open>test\<close> matches the whole name.
\<close>

definition rARIA_test :: "'v env \<Rightarrow> string \<Rightarrow> bool" where
  "rARIA_test env name =
     (take 5 name = ''aria-'' \<and> list_all (ATTRIBUTE_NAME_CHAR env) (drop 5 name))"

definition rARIACamel_test :: "'v env \<Rightarrow> string \<Rightarrow> bool" where
  "rARIACamel_test env name =
     (take 4 name = ''aria'' \<and> 4 < length name \<and> isUpperAZ (name ! 4) \<and>
      list_all (ATTRIBUTE_NAME_CHAR env) (drop 5 name))"

section \<open>The validator\<close>

text \<open>
  A call returns a value or throws; either way it leaves a state. The result of a
  function is \<open>Inr\<close> of the value it returns or \<open>Inl\<close> of the error it throws, with the
  state it leaves.
\<close>

datatype error = TypeError

text \<open>
  \<open>getStackAddendum\<close> (lines 36 to 45), in a development build: \<open>debugID != null\<close> is
  \<open>Some\<close>, and a stack that is \<open>null\<close> gives the empty string. It is called for an
  argument of \<open>warning\<close> only.
\<close>

definition getStackAddendum :: "'v env \<Rightarrow> debugID option \<Rightarrow> string" where
  "getStackAddendum env debugID =
     (case debugID of
        Some i \<Rightarrow> getStackAddendumByID env i
      | None \<Rightarrow>
          (case ReactDebugCurrentFrame_getStackAddendum env of
             Some stack \<Rightarrow> stack
           | None \<Rightarrow> []))"

text \<open>
  The block of \<open>validateProperty\<close> under \<open>rARIACamel.test(name)\<close> (lines 53 to 81):
  \<open>Some\<close> is the result with which the function ends in the block, \<open>None\<close> is control
  falling out of the block. After \<open>ariaName\<close>, line 54 reads
  \<open>validAriaProperties.hasOwnProperty\<close>, which throws in a production build.
  \<open>correctName\<close> is \<open>None\<close> for \<open>null\<close>.
\<close>

definition camelCheck ::
  "'v env \<Rightarrow> string \<Rightarrow> debugID option \<Rightarrow> state \<Rightarrow> ((error + bool) \<times> state) option" where
  "camelCheck env name debugID s =
     (let ariaName = ''aria-'' @ toLowerCase (slice 4 name)
      in if \<not> DEV env then Some (Inl TypeError, s)
         else
           let correctName = (if ariaName \<in> validAriaProperties env then Some ariaName else None)
           in case correctName of
                None \<Rightarrow>
                  Some (Inr True, mark_warned name (warning False
                    ''Invalid ARIA attribute `%s`. ARIA attributes follow the pattern aria-* and must be lowercase.%s''
                    [name, getStackAddendum env debugID] s))
              | Some correct \<Rightarrow>
                  if name \<noteq> correct then
                    Some (Inr True, mark_warned name (warning False
                      ''Invalid ARIA attribute `%s`. Did you mean `%s`?%s''
                      [name, correct, getStackAddendum env debugID] s))
                  else None)"

text \<open>
  The block under \<open>rARIA.test(name)\<close> (lines 85 to 107), in the same way; line 86 is the
  read that throws in a production build. Where \<open>standardName\<close> is \<open>null\<close> the block sets
  \<open>warnedProperties[name]\<close> and returns \<open>false\<close> without a call of \<open>warning\<close>.
\<close>

definition hyphenCheck ::
  "'v env \<Rightarrow> string \<Rightarrow> debugID option \<Rightarrow> state \<Rightarrow> ((error + bool) \<times> state) option" where
  "hyphenCheck env name debugID s =
     (let lowerCasedName = toLowerCase name
      in if \<not> DEV env then Some (Inl TypeError, s)
         else
           let standardName =
                 (if lowerCasedName \<in> validAriaProperties env then Some lowerCasedName else None)
           in case standardName of
                None \<Rightarrow> Some (Inr False, mark_warned name s)
              | Some standard \<Rightarrow>
                  if name \<noteq> standard then
                    Some (Inr True, mark_warned name (warning False
                      ''Unknown ARIA attribute `%s`. Did you mean `%s`?%s''
                      [name, standard, getStackAddendum env debugID] s))
                  else None)"

text \<open>
  \<open>validateProperty\<close> (lines 47 to 111): the check of the cache, the two blocks in the
  order of the source, each entered when its regular expression matches, and
  \<open>return true\<close> at the end.
\<close>

definition validateProperty ::
  "'v env \<Rightarrow> string \<Rightarrow> string \<Rightarrow> debugID option \<Rightarrow> state \<Rightarrow> (error + bool) \<times> state" where
  "validateProperty env tagName name debugID s =
     (if warned s name then (Inr True, s)
      else
        case (if rARIACamel_test env name then camelCheck env name debugID s else None) of
          Some r \<Rightarrow> r
        | None \<Rightarrow>
            (case (if rARIA_test env name then hyphenCheck env name debugID s else None) of
               Some r \<Rightarrow> r
             | None \<Rightarrow> (Inr True, s)))"

text \<open>
  The loop \<open>for (var key in props)\<close> of \<open>warnInvalidARIAProps\<close> (lines 116 to 121), over
  the keys still to visit, with the array \<open>invalidProps\<close> and the state. An error thrown
  for a key ends the loop.
\<close>

fun forIn ::
  "'v env \<Rightarrow> string \<Rightarrow> debugID option \<Rightarrow> string list \<Rightarrow> string list \<times> state \<Rightarrow>
     (error + string list) \<times> state" where
  "forIn env type debugID [] (invalidProps, s) = (Inr invalidProps, s)"
| "forIn env type debugID (key # keys) (invalidProps, s) =
     (case validateProperty env type key debugID s of
        (Inl e, s') \<Rightarrow> (Inl e, s')
      | (Inr isValid, s') \<Rightarrow>
          forIn env type debugID keys
            (if \<not> isValid then invalidProps @ [key] else invalidProps, s'))"

text \<open>
  A call \<open>warning(false, format, ...args)\<close> of \<open>warnInvalidARIAProps\<close> (lines 128 and 137)
  with its last argument \<open>getStackAddendum(debugID)\<close>: in a production build the
  functions that \<open>getStackAddendum\<close> calls and \<open>warning\<close> itself are \<open>undefined\<close>, and the
  statement throws.
\<close>

definition callWarning ::
  "'v env \<Rightarrow> string \<Rightarrow> string list \<Rightarrow> state \<Rightarrow> (error + unit) \<times> state" where
  "callWarning env fmt as s =
     (if DEV env then (Inr (), warning False fmt as s) else (Inl TypeError, s))"

text \<open>
  \<open>warnInvalidARIAProps\<close> (lines 113 to 146) and \<open>validateProperties\<close> (lines 148 to 153)
  take the property mapping, an object of the caller. What a call of them leaves is how
  it completed, the property mapping after it and the state after it.
\<close>

record 'v completion =
  returned :: "error + unit"
  props_after :: "'v props"
  state_after :: state

definition warnInvalidARIAProps ::
  "'v env \<Rightarrow> string \<Rightarrow> 'v props \<Rightarrow> debugID option \<Rightarrow> state \<Rightarrow> 'v completion" where
  "warnInvalidARIAProps env type props debugID s =
     (case forIn env type debugID (map fst props) ([], s) of
        (Inl e, s') \<Rightarrow> \<lparr>returned = Inl e, props_after = props, state_after = s'\<rparr>
      | (Inr invalidProps, s') \<Rightarrow>
          let unknownPropString = join '', '' (map (\<lambda>prop. ''`'' @ prop @ ''`'') invalidProps)
          in if length invalidProps = 1 then
               (case callWarning env
                   (''Invalid aria prop %s on <%s> tag. '' @
                    ''For details, see https://fb.me/invalid-aria-prop%s'')
                   [unknownPropString, type, getStackAddendum env debugID] s' of
                  (r, s'') \<Rightarrow> \<lparr>returned = r, props_after = props, state_after = s''\<rparr>)
             else if length invalidProps > 1 then
               (case callWarning env
                   (''Invalid aria props %s on <%s> tag. '' @
                    ''For details, see https://fb.me/invalid-aria-prop%s'')
                   [unknownPropString, type, getStackAddendum env debugID] s' of
                  (r, s'') \<Rightarrow> \<lparr>returned = r, props_after = props, state_after = s''\<rparr>)
             else \<lparr>returned = Inr (), props_after = props, state_after = s'\<rparr>)"

definition validateProperties ::
  "'v env \<Rightarrow> string \<Rightarrow> 'v props \<Rightarrow> debugID option \<Rightarrow> state \<Rightarrow> 'v completion" where
  "validateProperties env type props debugID s =
     (if isCustomComponent env type props
      then \<lparr>returned = Inr (), props_after = props, state_after = s\<rparr>
      else warnInvalidARIAProps env type props debugID s)"

text \<open>
  The entry points of Stack (lines 159 to 168). An element is \<open>null\<close> (\<open>None\<close>) or an
  object with a \<open>type\<close> and \<open>props\<close>; \<open>typeof element.type === 'string'\<close> holds of a
  host tag, \<open>StringType\<close>, and fails for every other type, such as the class or function
  of a composite component, \<open>ComponentType\<close>. The result is how the call completed and
  the state after it.
\<close>

datatype elementType = StringType string | ComponentType

record 'v element =
  element_type :: elementType
  element_props :: "'v props"

definition onBeforeMountComponent ::
  "'v env \<Rightarrow> debugID option \<Rightarrow> 'v element option \<Rightarrow> state \<Rightarrow> (error + unit) \<times> state" where
  "onBeforeMountComponent env debugID element s =
     (if DEV env then
        (case element of
           None \<Rightarrow> (Inr (), s)
         | Some el \<Rightarrow>
             (case element_type el of
                StringType tag \<Rightarrow>
                  (returned (validateProperties env tag (element_props el) debugID s),
                   state_after (validateProperties env tag (element_props el) debugID s))
              | ComponentType \<Rightarrow> (Inr (), s)))
      else (Inr (), s))"

definition onBeforeUpdateComponent ::
  "'v env \<Rightarrow> debugID option \<Rightarrow> 'v element option \<Rightarrow> state \<Rightarrow> (error + unit) \<times> state" where
  "onBeforeUpdateComponent env debugID element s =
     (if DEV env then
        (case element of
           None \<Rightarrow> (Inr (), s)
         | Some el \<Rightarrow>
             (case element_type el of
                StringType tag \<Rightarrow>
                  (returned (validateProperties env tag (element_props el) debugID s),
                   state_after (validateProperties env tag (element_props el) debugID s))
              | ComponentType \<Rightarrow> (Inr (), s)))
      else (Inr (), s))"

section \<open>The development build\<close>

text \<open>
  \<open>dev env\<close> is the environment of the development build with the values of \<open>env\<close>.
  There no call throws (see the lemmas on the builds below), and the functions are the
  following: the value returned with the state left, or the state left alone.
\<close>

definition dev :: "'v env \<Rightarrow> 'v env" where
  "dev env = env\<lparr>DEV := True\<rparr>"

definition validatePropertyDev ::
  "'v env \<Rightarrow> string \<Rightarrow> string \<Rightarrow> debugID option \<Rightarrow> state \<Rightarrow> bool \<times> state" where
  "validatePropertyDev env tagName name debugID s =
     (projr (fst (validateProperty (dev env) tagName name debugID s)),
      snd (validateProperty (dev env) tagName name debugID s))"

definition forInDev ::
  "'v env \<Rightarrow> string \<Rightarrow> debugID option \<Rightarrow> string list \<Rightarrow> string list \<times> state \<Rightarrow>
     string list \<times> state" where
  "forInDev env type debugID keys acc =
     (projr (fst (forIn (dev env) type debugID keys acc)),
      snd (forIn (dev env) type debugID keys acc))"

definition warnInvalidARIAPropsDev ::
  "'v env \<Rightarrow> string \<Rightarrow> 'v props \<Rightarrow> debugID option \<Rightarrow> state \<Rightarrow> state" where
  "warnInvalidARIAPropsDev env type props debugID s =
     state_after (warnInvalidARIAProps (dev env) type props debugID s)"

definition validatePropertiesDev ::
  "'v env \<Rightarrow> string \<Rightarrow> 'v props \<Rightarrow> debugID option \<Rightarrow> state \<Rightarrow> state" where
  "validatePropertiesDev env type props debugID s =
     state_after (validateProperties (dev env) type props debugID s)"

section \<open>Vocabulary of the properties\<close>

text \<open>
  The states of a process: the module starts with an empty cache and nothing emitted,
  and every later state is the state that a call of one of the three exported functions
  leaves, whether the call returns or throws.
\<close>

inductive reachable :: "'v env \<Rightarrow> state \<Rightarrow> bool" for env :: "'v env" where
  start: "reachable env initial_state"
| validate:
    "reachable env s \<Longrightarrow> reachable env (state_after (validateProperties env tag ps debugID s))"
| mount: "reachable env s \<Longrightarrow> reachable env (snd (onBeforeMountComponent env debugID element s))"
| update: "reachable env s \<Longrightarrow> reachable env (snd (onBeforeUpdateComponent env debugID element s))"

text \<open>The diagnostics a call adds: what \<open>s'\<close> has emitted beyond \<open>s\<close>.\<close>

definition added :: "state \<Rightarrow> state \<Rightarrow> diagnostic list" where
  "added s s' = drop (length (emitted s)) (emitted s')"

text \<open>
  The three formats of \<open>validateProperty\<close> report one name, their first argument; the
  two formats of \<open>warnInvalidARIAProps\<close> report the names of \<open>invalidProps\<close>, which the
  first argument lists between backticks, separated by a comma and a space.
\<close>

definition perNameFormats :: "string set" where
  "perNameFormats =
     {''Invalid ARIA attribute `%s`. ARIA attributes follow the pattern aria-* and must be lowercase.%s'',
      ''Invalid ARIA attribute `%s`. Did you mean `%s`?%s'',
      ''Unknown ARIA attribute `%s`. Did you mean `%s`?%s''}"

definition batchFormats :: "string set" where
  "batchFormats =
     {''Invalid aria prop %s on <%s> tag. For details, see https://fb.me/invalid-aria-prop%s'',
      ''Invalid aria props %s on <%s> tag. For details, see https://fb.me/invalid-aria-prop%s''}"

definition quoted :: "string \<Rightarrow> string" where
  "quoted prop = ''`'' @ prop @ ''`''"

text \<open>
  Splitting a text at every comma that a space follows; \<open>acc\<close> is the piece read so far,
  reversed.
\<close>

function splitList :: "string \<Rightarrow> string \<Rightarrow> string list" where
  "splitList acc [] = [rev acc]"
| "splitList acc (c # cs) =
     (if c = CHR '','' \<and> take 1 cs = '' '' then rev acc # splitList [] (drop 1 cs)
      else splitList (c # acc) cs)"
  by pat_completeness auto
termination
  by (relation "measure (\<lambda>(acc, cs). length cs)") auto

definition cites :: "string \<Rightarrow> diagnostic \<Rightarrow> bool" where
  "cites n d =
     (case args d of
        [] \<Rightarrow> False
      | a # _ \<Rightarrow>
          (format d \<in> perNameFormats \<and> a = n) \<or>
          (format d \<in> batchFormats \<and> quoted n \<in> set (splitList [] a)))"

text \<open>
  The names of a property mapping that \<open>warnInvalidARIAProps\<close> is to collect from a state
  in a development build: not warned, of the hyphenated pattern, and unknown once
  lowercased.
\<close>

definition unknownNames :: "'v env \<Rightarrow> state \<Rightarrow> 'v props \<Rightarrow> string list" where
  "unknownNames env s ps =
     filter (\<lambda>k. \<not> warned s k \<and> rARIA_test env k \<and> toLowerCase k \<notin> validAriaProperties env)
       (map fst ps)"

text \<open>
  The diagnostic of \<open>warnInvalidARIAProps\<close> for the names it collected: none for no name,
  the singular format for one name, the plural format for more.
\<close>

definition batchReport ::
  "'v env \<Rightarrow> string \<Rightarrow> debugID option \<Rightarrow> string list \<Rightarrow> diagnostic list" where
  "batchReport env tag debugID invalid =
     (case invalid of
        [] \<Rightarrow> []
      | [k] \<Rightarrow>
          [Warning ''Invalid aria prop %s on <%s> tag. For details, see https://fb.me/invalid-aria-prop%s''
             [quoted k, tag, getStackAddendum env debugID]]
      | _ \<Rightarrow>
          [Warning ''Invalid aria props %s on <%s> tag. For details, see https://fb.me/invalid-aria-prop%s''
             [join '', '' (map quoted invalid), tag, getStackAddendum env debugID]])"

text \<open>
  A name that \<open>validateProperty\<close> has nothing to say about: not of the camel-case
  pattern, and of the hyphenated pattern only as a known name in lowercase.
\<close>

definition silent :: "'v env \<Rightarrow> string \<Rightarrow> bool" where
  "silent env name \<longleftrightarrow>
     \<not> rARIACamel_test env name \<and>
     (rARIA_test env name \<longrightarrow>
        toLowerCase name \<in> validAriaProperties env \<and> toLowerCase name = name)"

text \<open>
  After the loop from \<open>s\<close>: the diagnostics \<open>ds\<close> it added are of the formats of
  \<open>validateProperty\<close>; a name is reported by them or collected at most once, never when
  it was warned in \<open>s\<close> or is silent, and it is warned afterwards.
\<close>

definition loopReport ::
  "'v env \<Rightarrow> state \<Rightarrow> string list \<Rightarrow> state \<Rightarrow> diagnostic list \<Rightarrow> bool" where
  "loopReport env s invalid s' ds \<longleftrightarrow>
     emitted s' = emitted s @ ds \<and>
     (\<forall>x \<in> set ds. format x \<in> perNameFormats) \<and>
     (\<forall>k \<in> set invalid. rARIA_test env k) \<and>
     (\<forall>n. length (filter (cites n) ds) + count_list invalid n \<le> (if warned s n then 0 else 1)) \<and>
     (\<forall>n. 0 < length (filter (cites n) ds) + count_list invalid n \<longrightarrow>
        warned s' n \<and> \<not> silent env n) \<and>
     (\<forall>n. warned s n \<longrightarrow> warned s' n)"

text \<open>The same of a whole call, whose diagnostics \<open>ds\<close> include the batched one.\<close>

definition callReport :: "'v env \<Rightarrow> state \<Rightarrow> state \<Rightarrow> diagnostic list \<Rightarrow> bool" where
  "callReport env s s' ds \<longleftrightarrow>
     emitted s' = emitted s @ ds \<and>
     (\<forall>n. length (filter (cites n) ds) \<le> (if warned s n then 0 else 1)) \<and>
     (\<forall>n. 0 < length (filter (cites n) ds) \<longrightarrow> warned s' n \<and> \<not> silent env n) \<and>
     (\<forall>n. warned s n \<longrightarrow> warned s' n)"

text \<open>
  The frame of a step from \<open>s\<close> to \<open>s'\<close> over the names \<open>K\<close>: diagnostics are appended,
  and names of \<open>K\<close> that were not warned are set to \<open>true\<close> in the cache; nothing else
  changes.
\<close>

definition onlyAdds :: "string set \<Rightarrow> state \<Rightarrow> state \<Rightarrow> bool" where
  "onlyAdds K s s' \<longleftrightarrow>
     (\<exists>ds N. N \<subseteq> K \<and> (\<forall>k \<in> N. \<not> warned s k) \<and>
        s' = s\<lparr>warnedProperties := (\<lambda>k. if k \<in> N then Some True else warnedProperties s k),
               emitted := emitted s @ ds\<rparr>)"

text \<open>
  An environment to run the validator on: the ASCII part of React's
  \<open>ATTRIBUTE_NAME_CHAR\<close>, a few entries of the ARIA table, and a tag with a hyphen as
  the custom element; and the production build of the same.
\<close>

definition exampleEnv :: "nat env" where
  "exampleEnv =
     \<lparr>DEV = True,
      ATTRIBUTE_NAME_CHAR =
        (\<lambda>c. c \<in> set '':_-.'' \<or> isUpperAZ c \<or>
             (97 \<le> (of_char c :: nat) \<and> (of_char c :: nat) \<le> 122) \<or>
             (48 \<le> (of_char c :: nat) \<and> (of_char c :: nat) \<le> 57)),
      validAriaProperties = {''aria-hidden'', ''aria-label'', ''aria-labelledby''},
      isCustomComponent = (\<lambda>tag ps. CHR ''-'' \<in> set tag),
      getStackAddendumByID = (\<lambda>i. []),
      ReactDebugCurrentFrame_getStackAddendum = None\<rparr>"

definition productionEnv :: "nat env" where
  "productionEnv = exampleEnv\<lparr>DEV := False\<rparr>"

section \<open>Lemmas\<close>

subsection \<open>The two patterns\<close>

lemma toLowerCase_char_upper: "isUpperAZ c \<Longrightarrow> toLowerCase_char c \<noteq> c"
proof
  assume up: "isUpperAZ c" and eq: "toLowerCase_char c = c"
  from up eq have "char_of ((of_char c :: nat) + 32) = c"
    by (simp add: toLowerCase_char_def isUpperCase_def)
  then have "(of_char (char_of ((of_char c :: nat) + 32) :: char) :: nat) = of_char c"
    by simp
  moreover from up have "((of_char c :: nat) + 32) mod 256 = of_char c + 32"
    by (simp add: isUpperAZ_def)
  ultimately show False
    by simp
qed

lemma rARIA_fifth: "rARIA_test env name \<Longrightarrow> 4 < length name \<and> name ! 4 = CHR ''-''"
proof -
  assume "rARIA_test env name"
  then have t: "take 5 name = ''aria-''"
    by (simp add: rARIA_test_def)
  then have "length (take 5 name) = 5"
    by simp
  then have len: "4 < length name"
    by simp
  have "take 5 name ! 4 = name ! 4"
    by simp
  with t len show ?thesis
    by simp
qed

lemma camel_not_hyphen: "rARIACamel_test env name \<Longrightarrow> \<not> rARIA_test env name"
proof
  assume c: "rARIACamel_test env name" and h: "rARIA_test env name"
  from h have "name ! 4 = CHR ''-''"
    by (simp add: rARIA_fifth)
  moreover from c have "isUpperAZ (name ! 4)"
    by (simp add: rARIACamel_test_def)
  ultimately show False
    by (simp add: isUpperAZ_def)
qed

lemma camel_not_canonical:
  "rARIACamel_test env name \<Longrightarrow> ''aria-'' @ toLowerCase (slice 4 name) \<noteq> name"
proof
  assume c: "rARIACamel_test env name" and eq: "''aria-'' @ toLowerCase (slice 4 name) = name"
  from c have up: "isUpperAZ (name ! 4)"
    by (simp add: rARIACamel_test_def)
  have "(''aria-'' @ toLowerCase (slice 4 name)) ! 4 = CHR ''-''"
    by simp
  with eq have "name ! 4 = CHR ''-''"
    by simp
  with up show False
    by (simp add: isUpperAZ_def)
qed

lemma lowercase_not_camel: "toLowerCase name = name \<Longrightarrow> \<not> rARIACamel_test env name"
proof
  assume low: "toLowerCase name = name" and c: "rARIACamel_test env name"
  from c have len: "4 < length name" and up: "isUpperAZ (name ! 4)"
    by (simp_all add: rARIACamel_test_def)
  from len have "toLowerCase name ! 4 = toLowerCase_char (name ! 4)"
    by (simp add: toLowerCase_def)
  with low have "toLowerCase_char (name ! 4) = name ! 4"
    by simp
  with up show False
    by (simp add: toLowerCase_char_upper)
qed

subsection \<open>The environment of the development build\<close>

lemma dev_simps [simp]:
  "DEV (dev env)"
  "validAriaProperties (dev env) = validAriaProperties env"
  "isCustomComponent (dev env) = isCustomComponent env"
  "getStackAddendum (dev env) debugID = getStackAddendum env debugID"
  "rARIA_test (dev env) name = rARIA_test env name"
  "rARIACamel_test (dev env) name = rARIACamel_test env name"
  by (simp_all add: dev_def getStackAddendum_def rARIA_test_def rARIACamel_test_def
      split: option.splits)

lemma dev_DEV: "DEV env \<Longrightarrow> dev env = env"
  by (simp add: dev_def)

subsection \<open>One name in the development build\<close>

lemma validatePropertyDev_warned:
  "warned s name \<Longrightarrow> validatePropertyDev env tag name debugID s = (True, s)"
  by (simp add: validatePropertyDev_def validateProperty_def)

lemma validatePropertyDev_camel_unknown:
  assumes "\<not> warned s name" and "rARIACamel_test env name"
    and "''aria-'' @ toLowerCase (slice 4 name) \<notin> validAriaProperties env"
  shows "validatePropertyDev env tag name debugID s =
    (True, mark_warned name (warning False
       ''Invalid ARIA attribute `%s`. ARIA attributes follow the pattern aria-* and must be lowercase.%s''
       [name, getStackAddendum env debugID] s))"
  using assms by (simp add: validatePropertyDev_def validateProperty_def camelCheck_def)

lemma validatePropertyDev_camel_known:
  assumes "\<not> warned s name" and "rARIACamel_test env name"
    and "''aria-'' @ toLowerCase (slice 4 name) \<in> validAriaProperties env"
  shows "validatePropertyDev env tag name debugID s =
    (True, mark_warned name (warning False
       ''Invalid ARIA attribute `%s`. Did you mean `%s`?%s''
       [name, ''aria-'' @ toLowerCase (slice 4 name), getStackAddendum env debugID] s))"
proof -
  from assms(2) have "name \<noteq> ''aria-'' @ toLowerCase (slice 4 name)"
    using camel_not_canonical [of env name] by auto
  with assms show ?thesis
    by (simp add: validatePropertyDev_def validateProperty_def camelCheck_def)
qed

lemma validatePropertyDev_hyphen_unknown:
  assumes "\<not> warned s name" and "rARIA_test env name"
    and "toLowerCase name \<notin> validAriaProperties env"
  shows "validatePropertyDev env tag name debugID s = (False, mark_warned name s)"
proof -
  from assms(2) have "\<not> rARIACamel_test env name"
    using camel_not_hyphen by blast
  with assms show ?thesis
    by (simp add: validatePropertyDev_def validateProperty_def hyphenCheck_def)
qed

lemma validatePropertyDev_hyphen_case:
  assumes "\<not> warned s name" and "rARIA_test env name"
    and "toLowerCase name \<in> validAriaProperties env" and "toLowerCase name \<noteq> name"
  shows "validatePropertyDev env tag name debugID s =
    (True, mark_warned name (warning False
       ''Unknown ARIA attribute `%s`. Did you mean `%s`?%s''
       [name, toLowerCase name, getStackAddendum env debugID] s))"
proof -
  from assms(2) have "\<not> rARIACamel_test env name"
    using camel_not_hyphen by blast
  with assms show ?thesis
    by (auto simp add: validatePropertyDev_def validateProperty_def hyphenCheck_def)
qed

lemma validatePropertyDev_hyphen_exact:
  assumes "rARIA_test env name"
    and "toLowerCase name \<in> validAriaProperties env" and "toLowerCase name = name"
  shows "validatePropertyDev env tag name debugID s = (True, s)"
proof -
  from assms(1) have "\<not> rARIACamel_test env name"
    using camel_not_hyphen by blast
  with assms show ?thesis
    by (simp add: validatePropertyDev_def validateProperty_def hyphenCheck_def)
qed

lemma validatePropertyDev_neither:
  assumes "\<not> rARIACamel_test env name" and "\<not> rARIA_test env name"
  shows "validatePropertyDev env tag name debugID s = (True, s)"
  using assms by (simp add: validatePropertyDev_def validateProperty_def)

text \<open>The three outcomes of one name.\<close>

lemma validatePropertyDev_cases:
  "((warned s name \<or> silent env name) \<and> validatePropertyDev env tag name debugID s = (True, s)) \<or>
   (\<not> warned s name \<and> \<not> silent env name \<and> rARIA_test env name \<and>
    toLowerCase name \<notin> validAriaProperties env \<and>
    validatePropertyDev env tag name debugID s = (False, mark_warned name s)) \<or>
   (\<not> warned s name \<and> \<not> silent env name \<and>
    (\<exists>fmt rest. fmt \<in> perNameFormats \<and>
       validatePropertyDev env tag name debugID s =
         (True, mark_warned name (warning False fmt (name # rest) s))))"
proof (cases "warned s name")
  case True
  then show ?thesis by (simp add: validatePropertyDev_warned)
next
  case nw: False
  show ?thesis
  proof (cases "rARIACamel_test env name")
    case c: True
    then have ns: "\<not> silent env name"
      by (simp add: silent_def)
    show ?thesis
    proof (cases "''aria-'' @ toLowerCase (slice 4 name) \<in> validAriaProperties env")
      case True
      have "''Invalid ARIA attribute `%s`. Did you mean `%s`?%s'' \<in> perNameFormats"
        by (simp add: perNameFormats_def)
      with validatePropertyDev_camel_known [OF nw c True] nw ns
      show ?thesis by blast
    next
      case False
      have "''Invalid ARIA attribute `%s`. ARIA attributes follow the pattern aria-* and must be lowercase.%s'' \<in> perNameFormats"
        by (simp add: perNameFormats_def)
      with validatePropertyDev_camel_unknown [OF nw c False] nw ns
      show ?thesis by blast
    qed
  next
    case nc: False
    show ?thesis
    proof (cases "rARIA_test env name")
      case False
      with nc show ?thesis by (simp add: validatePropertyDev_neither silent_def)
    next
      case h: True
      show ?thesis
      proof (cases "toLowerCase name \<in> validAriaProperties env")
        case False
        with h have "\<not> silent env name"
          by (simp add: silent_def)
        with nw h False show ?thesis by (simp add: validatePropertyDev_hyphen_unknown)
      next
        case k: True
        show ?thesis
        proof (cases "toLowerCase name = name")
          case True
          with h k nc show ?thesis by (simp add: validatePropertyDev_hyphen_exact silent_def)
        next
          case False
          with h have ns: "\<not> silent env name"
            by (simp add: silent_def)
          have "''Unknown ARIA attribute `%s`. Did you mean `%s`?%s'' \<in> perNameFormats"
            by (simp add: perNameFormats_def)
          with validatePropertyDev_hyphen_case [OF nw h k False] nw ns
          show ?thesis by blast
        qed
      qed
    qed
  qed
qed

lemma validatePropertyDev_silent:
  "silent env name \<Longrightarrow> validatePropertyDev env tag name debugID s = (True, s)"
  using validatePropertyDev_cases [of s name env tag debugID] by blast

lemma validatePropertyDev_invalid_iff:
  "\<not> fst (validatePropertyDev env tag name debugID s) \<longleftrightarrow>
     \<not> warned s name \<and> rARIA_test env name \<and> toLowerCase name \<notin> validAriaProperties env"
proof (cases "\<not> warned s name \<and> rARIA_test env name \<and> toLowerCase name \<notin> validAriaProperties env")
  case True
  then show ?thesis by (simp add: validatePropertyDev_hyphen_unknown)
next
  case False
  with validatePropertyDev_cases [of s name env tag debugID] show ?thesis
    by auto
qed

subsection \<open>The functions of the development build\<close>

text \<open>
  In the development build \<open>validateProperty\<close> returns: its result is \<open>Inr\<close> of the value
  of \<open>validatePropertyDev\<close>, with the state of \<open>validatePropertyDev\<close>.
\<close>

lemma validateProperty_dev:
  "validateProperty (dev env) tag name debugID s =
     (Inr (fst (validatePropertyDev env tag name debugID s)),
      snd (validatePropertyDev env tag name debugID s))"
proof -
  have "\<exists>v s'. validateProperty (dev env) tag name debugID s = (Inr v, s')"
    by (auto simp add: validateProperty_def camelCheck_def hyphenCheck_def Let_def)
  then show ?thesis
    by (auto simp add: validatePropertyDev_def)
qed

lemma forInDev_simps [simp]:
  "forInDev env tag debugID [] (acc, s) = (acc, s)"
  "forInDev env tag debugID (key # keys) (acc, s) =
     (case validatePropertyDev env tag key debugID s of
        (isValid, s') \<Rightarrow>
          forInDev env tag debugID keys (if \<not> isValid then acc @ [key] else acc, s'))"
  by (simp_all add: forInDev_def validateProperty_dev split: prod.splits)

lemma forIn_dev:
  "forIn (dev env) tag debugID keys (acc, s) =
     (Inr (fst (forInDev env tag debugID keys (acc, s))),
      snd (forInDev env tag debugID keys (acc, s)))"
proof (induction keys arbitrary: acc s)
  case Nil
  show ?case by simp
next
  case (Cons k ks)
  show ?case
    by (simp add: validateProperty_dev Cons.IH split: prod.splits)
qed

subsection \<open>The state after one step\<close>

lemma warned_mark_warned [simp]: "warned (mark_warned name s) k \<longleftrightarrow> k = name \<or> warned s k"
  by (simp add: warned_def mark_warned_def)

lemma warned_warning [simp]: "warned (warning c fmt as s) k = warned s k"
  by (simp add: warned_def warning_def)

lemma emitted_mark_warned [simp]: "emitted (mark_warned name s) = emitted s"
  by (simp add: mark_warned_def)

lemma emitted_warning [simp]: "emitted (warning False fmt as s) = emitted s @ [Warning fmt as]"
  by (simp add: warning_def)

lemma warnedProperties_warning [simp]:
  "warnedProperties (warning c fmt as s) = warnedProperties s"
  by (simp add: warning_def)

lemma warnedProperties_mark_warned [simp]:
  "warnedProperties (mark_warned name s) = (warnedProperties s)(name \<mapsto> True)"
  by (simp add: mark_warned_def)

lemma added_append: "emitted s' = emitted s @ ds \<Longrightarrow> added s s' = ds"
  by (simp add: added_def)

lemma added_same [simp]: "added s s = []"
  by (simp add: added_def)

subsection \<open>The loop over the keys\<close>

lemma forInDev_acc:
  "forInDev env tag debugID keys (acc, s) =
     (acc @ fst (forInDev env tag debugID keys ([], s)), snd (forInDev env tag debugID keys ([], s)))"
proof (induction keys arbitrary: acc s)
  case Nil
  show ?case by simp
next
  case (Cons k ks)
  obtain v s1 where vp: "validatePropertyDev env tag k debugID s = (v, s1)"
    by (cases "validatePropertyDev env tag k debugID s")
  let ?new = "if \<not> v then [k] else []"
  have l: "forInDev env tag debugID (k # ks) (acc, s) = forInDev env tag debugID ks (acc @ ?new, s1)"
    using vp by simp
  have r: "forInDev env tag debugID (k # ks) ([], s) = forInDev env tag debugID ks (?new, s1)"
    using vp by simp
  let ?rest = "forInDev env tag debugID ks ([], s1)"
  have a: "forInDev env tag debugID ks (acc @ ?new, s1) = ((acc @ ?new) @ fst ?rest, snd ?rest)"
    by (rule Cons.IH)
  have b: "forInDev env tag debugID ks (?new, s1) = (?new @ fst ?rest, snd ?rest)"
    by (rule Cons.IH)
  show ?case
    unfolding l r a b by simp
qed

lemma forInDev_Cons:
  "forInDev env tag debugID (k # ks) ([], s) =
     ((if fst (validatePropertyDev env tag k debugID s) then [] else [k]) @
        fst (forInDev env tag debugID ks ([], snd (validatePropertyDev env tag k debugID s))),
      snd (forInDev env tag debugID ks ([], snd (validatePropertyDev env tag k debugID s))))"
proof -
  obtain v s1 where vp: "validatePropertyDev env tag k debugID s = (v, s1)"
    by (cases "validatePropertyDev env tag k debugID s")
  have "forInDev env tag debugID (k # ks) ([], s) =
      forInDev env tag debugID ks (if v then [] else [k], s1)"
    using vp by simp
  also have "\<dots> = ((if v then [] else [k]) @ fst (forInDev env tag debugID ks ([], s1)),
      snd (forInDev env tag debugID ks ([], s1)))"
    by (rule forInDev_acc)
  finally show ?thesis
    using vp by simp
qed

subsection \<open>Reading a diagnostic\<close>

lemma splitList_no_comma:
  "CHR '','' \<notin> set t \<Longrightarrow> splitList acc (t @ rest) = splitList (rev t @ acc) rest"
  by (induction t arbitrary: acc) auto

lemma splitList_join:
  "\<forall>t \<in> set (t0 # ts). CHR '','' \<notin> set t \<Longrightarrow>
     splitList acc (join '', '' (t0 # ts)) = (rev acc @ t0) # ts"
proof (induction ts arbitrary: t0 acc)
  case Nil
  then have "splitList acc (t0 @ []) = splitList (rev t0 @ acc) []"
    by (intro splitList_no_comma) simp
  then show ?case by simp
next
  case (Cons u us)
  from Cons.prems have t0: "CHR '','' \<notin> set t0" and rest: "\<forall>t \<in> set (u # us). CHR '','' \<notin> set t"
    by simp_all
  have "splitList acc (t0 @ ('', '' @ join '', '' (u # us))) =
      splitList (rev t0 @ acc) ('', '' @ join '', '' (u # us))"
    using t0 by (rule splitList_no_comma)
  also have "\<dots> = rev (rev t0 @ acc) # splitList [] (join '', '' (u # us))"
    by simp
  also have "splitList [] (join '', '' (u # us)) = (rev [] @ u) # us"
    using rest by (rule Cons.IH)
  finally show ?case by simp
qed

lemma formats_disjoint: "fmt \<in> perNameFormats \<Longrightarrow> fmt \<notin> batchFormats"
  by (auto simp add: perNameFormats_def batchFormats_def)

lemma cites_perName:
  "fmt \<in> perNameFormats \<Longrightarrow> cites n (Warning fmt (a # rest)) \<longleftrightarrow> a = n"
  by (simp add: cites_def formats_disjoint)

lemma rARIA_no_comma:
  assumes "\<not> ATTRIBUTE_NAME_CHAR env (CHR '','')" and "rARIA_test env k"
  shows "CHR '','' \<notin> set k"
proof -
  from assms(2) have t: "take 5 k = ''aria-''" and d: "list_all (ATTRIBUTE_NAME_CHAR env) (drop 5 k)"
    by (simp_all add: rARIA_test_def)
  have "set k = set (take 5 k) \<union> set (drop 5 k)"
    by (metis append_take_drop_id set_append)
  moreover from d assms(1) have "CHR '','' \<notin> set (drop 5 k)"
    by (auto simp add: list_all_iff)
  ultimately show ?thesis
    using t by simp
qed

lemma cites_batch:
  assumes "fmt \<in> batchFormats" and "ks \<noteq> []" and "\<forall>k \<in> set ks. CHR '','' \<notin> set k"
  shows "cites n (Warning fmt (join '', '' (map quoted ks) # rest)) \<longleftrightarrow> n \<in> set ks"
proof -
  from assms(2) obtain k0 ks' where ks: "ks = k0 # ks'"
    by (cases ks) auto
  have "\<forall>t \<in> set (quoted k0 # map quoted ks'). CHR '','' \<notin> set t"
    using assms(3) by (auto simp add: ks quoted_def)
  then have "splitList [] (join '', '' (quoted k0 # map quoted ks')) =
      (rev [] @ quoted k0) # map quoted ks'"
    by (rule splitList_join)
  then have split: "splitList [] (join '', '' (map quoted ks)) = map quoted ks"
    by (simp add: ks)
  have "fmt \<notin> perNameFormats"
    using assms(1) formats_disjoint by blast
  then have "cites n (Warning fmt (join '', '' (map quoted ks) # rest)) \<longleftrightarrow>
      quoted n \<in> set (map quoted ks)"
    using assms(1) by (simp add: cites_def split)
  also have "\<dots> \<longleftrightarrow> n \<in> set ks"
    by (auto simp add: quoted_def)
  finally show ?thesis .
qed

subsection \<open>What the loop reports\<close>

lemma loopReport_collect:
  assumes "loopReport env (mark_warned k s) invalid s' ds"
    and "\<not> warned s k" and "rARIA_test env k" and "\<not> silent env k"
  shows "loopReport env s ([k] @ invalid) s' ds"
proof -
  from assms(1) have e: "emitted s' = emitted s @ ds"
    and f: "\<forall>x \<in> set ds. format x \<in> perNameFormats"
    and a: "\<forall>k \<in> set invalid. rARIA_test env k"
    and c: "length (filter (cites n) ds) + count_list invalid n \<le>
        (if n = k \<or> warned s n then 0 else 1)"
    and w: "0 < length (filter (cites n) ds) + count_list invalid n \<Longrightarrow>
        warned s' n \<and> \<not> silent env n"
    and m: "n = k \<or> warned s n \<Longrightarrow> warned s' n" for n
    by (auto simp add: loopReport_def)
  have c': "length (filter (cites n) ds) + count_list ([k] @ invalid) n \<le>
      (if warned s n then 0 else 1)" for n
    using c [of n] assms(2) by (cases "n = k") (auto split: if_splits)
  have w': "0 < length (filter (cites n) ds) + count_list ([k] @ invalid) n \<Longrightarrow>
      warned s' n \<and> \<not> silent env n" for n
    using w [of n] m [of n] assms(4) by (cases "n = k") auto
  show ?thesis
    unfolding loopReport_def using e f a c' w' m assms(3) by auto
qed

lemma loopReport_emit:
  assumes "loopReport env (mark_warned k (warning False fmt (k # rest) s)) invalid s' ds"
    and "\<not> warned s k" and "fmt \<in> perNameFormats" and "\<not> silent env k"
  shows "loopReport env s ([] @ invalid) s' (Warning fmt (k # rest) # ds)"
proof -
  from assms(1) have e: "emitted s' = emitted s @ Warning fmt (k # rest) # ds"
    and f: "\<forall>x \<in> set ds. format x \<in> perNameFormats"
    and a: "\<forall>k \<in> set invalid. rARIA_test env k"
    and c: "length (filter (cites n) ds) + count_list invalid n \<le>
        (if n = k \<or> warned s n then 0 else 1)"
    and w: "0 < length (filter (cites n) ds) + count_list invalid n \<Longrightarrow>
        warned s' n \<and> \<not> silent env n"
    and m: "n = k \<or> warned s n \<Longrightarrow> warned s' n" for n
    by (auto simp add: loopReport_def)
  have ci: "cites n (Warning fmt (k # rest)) \<longleftrightarrow> k = n" for n
    using assms(3) by (rule cites_perName)
  have c': "length (filter (cites n) (Warning fmt (k # rest) # ds)) + count_list ([] @ invalid) n \<le>
      (if warned s n then 0 else 1)" for n
    using c [of n] assms(2) by (cases "n = k") (auto simp add: ci split: if_splits)
  have w': "0 < length (filter (cites n) (Warning fmt (k # rest) # ds)) + count_list ([] @ invalid) n
      \<Longrightarrow> warned s' n \<and> \<not> silent env n" for n
    using w [of n] m [of n] assms(4) by (cases "n = k") (auto simp add: ci)
  show ?thesis
    unfolding loopReport_def using e f a c' w' m assms(3) by auto
qed

lemma forInDev_report:
  "\<exists>ds. loopReport env s (fst (forInDev env tag debugID keys ([], s)))
     (snd (forInDev env tag debugID keys ([], s))) ds"
proof (induction keys arbitrary: s)
  case Nil
  have "loopReport env s [] s []"
    by (simp add: loopReport_def)
  then show ?case by auto
next
  case (Cons k ks)
  let ?v = "validatePropertyDev env tag k debugID s"
  from Cons.IH [of "snd ?v"] obtain ds
    where ih: "loopReport env (snd ?v) (fst (forInDev env tag debugID ks ([], snd ?v)))
      (snd (forInDev env tag debugID ks ([], snd ?v))) ds"
    by blast
  from validatePropertyDev_cases [of s k env tag debugID]
  consider (unchanged) "?v = (True, s)"
    | (collected) "\<not> warned s k" "\<not> silent env k" "rARIA_test env k"
        "?v = (False, mark_warned k s)"
    | (reported) fmt rest where "\<not> warned s k" "\<not> silent env k" "fmt \<in> perNameFormats"
        "?v = (True, mark_warned k (warning False fmt (k # rest) s))"
    by blast
  then show ?case
  proof cases
    case unchanged
    with ih have "loopReport env s ([] @ fst (forInDev env tag debugID ks ([], s)))
        (snd (forInDev env tag debugID ks ([], s))) ds"
      by simp
    then show ?thesis
      unfolding forInDev_Cons unchanged by auto
  next
    case collected
    with ih have "loopReport env (mark_warned k s)
        (fst (forInDev env tag debugID ks ([], mark_warned k s)))
        (snd (forInDev env tag debugID ks ([], mark_warned k s))) ds"
      by simp
    then have "loopReport env s ([k] @ fst (forInDev env tag debugID ks ([], mark_warned k s)))
        (snd (forInDev env tag debugID ks ([], mark_warned k s))) ds"
      using collected(1,3,2) by (rule loopReport_collect)
    then show ?thesis
      unfolding forInDev_Cons collected(4) by auto
  next
    case reported
    let ?s1 = "mark_warned k (warning False fmt (k # rest) s)"
    from ih reported(4) have "loopReport env ?s1
        (fst (forInDev env tag debugID ks ([], ?s1))) (snd (forInDev env tag debugID ks ([], ?s1))) ds"
      by simp
    then have "loopReport env s ([] @ fst (forInDev env tag debugID ks ([], ?s1)))
        (snd (forInDev env tag debugID ks ([], ?s1))) (Warning fmt (k # rest) # ds)"
      using reported(1,3,2) by (rule loopReport_emit)
    then show ?thesis
      unfolding forInDev_Cons reported(4) by auto
  qed
qed

subsection \<open>What a call reports\<close>

lemma warnInvalidARIAProps_dev:
  "warnInvalidARIAProps (dev env) tag ps debugID s =
     \<lparr>returned = Inr (), props_after = ps,
      state_after =
        (snd (forInDev env tag debugID (map fst ps) ([], s)))
          \<lparr>emitted := emitted (snd (forInDev env tag debugID (map fst ps) ([], s))) @
             batchReport env tag debugID
               (fst (forInDev env tag debugID (map fst ps) ([], s)))\<rparr>\<rparr>"
proof -
  obtain invalid s1 where l: "forInDev env tag debugID (map fst ps) ([], s) = (invalid, s1)"
    by (cases "forInDev env tag debugID (map fst ps) ([], s)")
  then have f: "forIn (dev env) tag debugID (map fst ps) ([], s) = (Inr invalid, s1)"
    by (simp add: forIn_dev)
  have q: "(\<lambda>prop. ''`'' @ prop @ ''`'') = quoted"
    by (simp add: quoted_def fun_eq_iff)
  show ?thesis
  proof (cases invalid)
    case Nil
    with l f show ?thesis
      unfolding warnInvalidARIAProps_def q by (simp add: batchReport_def)
  next
    case (Cons k ks)
    with l f show ?thesis
      unfolding warnInvalidARIAProps_def q
      by (cases ks) (simp_all add: batchReport_def callWarning_def warning_def)
  qed
qed

lemma warnInvalidARIAPropsDev_eq:
  "warnInvalidARIAPropsDev env tag ps debugID s =
     (snd (forInDev env tag debugID (map fst ps) ([], s)))
       \<lparr>emitted := emitted (snd (forInDev env tag debugID (map fst ps) ([], s))) @
          batchReport env tag debugID (fst (forInDev env tag debugID (map fst ps) ([], s)))\<rparr>"
  by (simp add: warnInvalidARIAPropsDev_def warnInvalidARIAProps_dev)

lemma validatePropertiesDev_eq:
  "validatePropertiesDev env tag ps debugID s =
     (if isCustomComponent env tag ps then s else warnInvalidARIAPropsDev env tag ps debugID s)"
  by (simp add: validatePropertiesDev_def validateProperties_def warnInvalidARIAPropsDev_def)

lemma batchReport_cites:
  assumes "\<forall>k \<in> set invalid. CHR '','' \<notin> set k"
  shows "length (filter (cites n) (batchReport env tag debugID invalid)) \<le> count_list invalid n"
proof (cases invalid)
  case Nil
  then show ?thesis by (simp add: batchReport_def)
next
  case (Cons k ks)
  obtain fmt where b: "batchReport env tag debugID invalid =
      [Warning fmt (join '', '' (map quoted invalid) # [tag, getStackAddendum env debugID])]"
    and fmt: "fmt \<in> batchFormats"
    using Cons by (cases ks) (simp_all add: batchReport_def batchFormats_def)
  from Cons have "invalid \<noteq> []" by simp
  with fmt have "cites n (Warning fmt (join '', '' (map quoted invalid) #
      [tag, getStackAddendum env debugID])) \<longleftrightarrow> n \<in> set invalid"
    using assms by (rule cites_batch)
  moreover have "n \<in> set invalid \<Longrightarrow> 0 < count_list invalid n"
    using count_list_0_iff [of invalid n] by auto
  ultimately show ?thesis
    unfolding b by (auto simp add: Suc_le_eq)
qed

lemma callReport_same: "callReport env s s []"
  by (simp add: callReport_def)

lemma warned_emitted_update [simp]: "warned (s\<lparr>emitted := x\<rparr>) n = warned s n"
  by (simp add: warned_def)

lemma loopReport_batch:
  assumes r: "loopReport env s invalid s1 ds"
    and nc: "\<not> ATTRIBUTE_NAME_CHAR env (CHR '','')"
  shows "callReport env s (s1\<lparr>emitted := emitted s1 @ batchReport env tag debugID invalid\<rparr>)
    (ds @ batchReport env tag debugID invalid)"
proof -
  let ?b = "batchReport env tag debugID invalid"
  from r have e: "emitted s1 = emitted s @ ds"
    and a: "\<forall>k \<in> set invalid. rARIA_test env k"
    and c: "length (filter (cites n) ds) + count_list invalid n \<le> (if warned s n then 0 else 1)"
    and w: "0 < length (filter (cites n) ds) + count_list invalid n \<Longrightarrow>
        warned s1 n \<and> \<not> silent env n"
    and m: "warned s n \<Longrightarrow> warned s1 n" for n
    by (auto simp add: loopReport_def)
  from a nc have "\<forall>k \<in> set invalid. CHR '','' \<notin> set k"
    using rARIA_no_comma by blast
  then have b: "length (filter (cites n) ?b) \<le> count_list invalid n" for n
    by (rule batchReport_cites)
  have c': "length (filter (cites n) (ds @ ?b)) \<le> (if warned s n then 0 else 1)" for n
    using c [of n] b [of n] by (simp split: if_splits)
  have w': "warned s1 n \<and> \<not> silent env n" if "0 < length (filter (cites n) (ds @ ?b))" for n
  proof -
    from that have "0 < length (filter (cites n) ds) + length (filter (cites n) ?b)"
      by simp
    with b [of n] have "0 < length (filter (cites n) ds) + count_list invalid n"
      by linarith
    then show ?thesis by (rule w)
  qed
  show ?thesis
    unfolding callReport_def warned_emitted_update using e c' w' m by (simp del: filter_append)
qed

lemma warnInvalidARIAPropsDev_report:
  assumes "\<not> ATTRIBUTE_NAME_CHAR env (CHR '','')"
  shows "\<exists>ds. callReport env s (warnInvalidARIAPropsDev env tag ps debugID s) ds"
proof -
  let ?loop = "forInDev env tag debugID (map fst ps) ([], s)"
  obtain ds where r: "loopReport env s (fst ?loop) (snd ?loop) ds"
    using forInDev_report by blast
  from r assms have "callReport env s
      ((snd ?loop)\<lparr>emitted := emitted (snd ?loop) @ batchReport env tag debugID (fst ?loop)\<rparr>)
      (ds @ batchReport env tag debugID (fst ?loop))"
    by (rule loopReport_batch)
  then show ?thesis
    unfolding warnInvalidARIAPropsDev_eq by blast
qed

lemma validatePropertiesDev_report:
  assumes "\<not> ATTRIBUTE_NAME_CHAR env (CHR '','')"
  shows "\<exists>ds. callReport env s (validatePropertiesDev env tag ps debugID s) ds"
proof (cases "isCustomComponent env tag ps")
  case True
  then have "validatePropertiesDev env tag ps debugID s = s"
    by (simp add: validatePropertiesDev_eq)
  with callReport_same [of env s] show ?thesis by auto
next
  case False
  then have "validatePropertiesDev env tag ps debugID s = warnInvalidARIAPropsDev env tag ps debugID s"
    by (simp add: validatePropertiesDev_eq)
  with warnInvalidARIAPropsDev_report [OF assms, of s tag ps debugID] show ?thesis by simp
qed

subsection \<open>The frame of a call\<close>

lemma onlyAdds_refl: "onlyAdds K s s"
proof -
  have "{} \<subseteq> K \<and> (\<forall>k \<in> {}. \<not> warned s k) \<and>
      s = s\<lparr>warnedProperties := (\<lambda>k. if k \<in> {} then Some True else warnedProperties s k),
             emitted := emitted s @ []\<rparr>"
    by simp
  then show ?thesis
    unfolding onlyAdds_def by blast
qed

lemma onlyAdds_trans:
  assumes "onlyAdds K s s1" and "onlyAdds K' s1 s2"
  shows "onlyAdds (K \<union> K') s s2"
proof -
  from assms(1) obtain ds N where N: "N \<subseteq> K" and nw: "\<forall>k \<in> N. \<not> warned s k"
    and s1: "s1 = s\<lparr>warnedProperties := (\<lambda>k. if k \<in> N then Some True else warnedProperties s k),
        emitted := emitted s @ ds\<rparr>"
    unfolding onlyAdds_def by blast
  from assms(2) obtain ds' N' where N': "N' \<subseteq> K'" and nw': "\<forall>k \<in> N'. \<not> warned s1 k"
    and s2: "s2 = s1\<lparr>warnedProperties := (\<lambda>k. if k \<in> N' then Some True else warnedProperties s1 k),
        emitted := emitted s1 @ ds'\<rparr>"
    unfolding onlyAdds_def by blast
  have w: "warned s1 k \<longleftrightarrow> k \<in> N \<or> warned s k" for k
    by (simp add: s1 warned_def)
  have "N \<union> N' \<subseteq> K \<union> K'"
    using N N' by blast
  moreover have "\<forall>k \<in> N \<union> N'. \<not> warned s k"
    using nw nw' w by blast
  moreover have "s2 = s\<lparr>warnedProperties :=
        (\<lambda>k. if k \<in> N \<union> N' then Some True else warnedProperties s k),
      emitted := emitted s @ (ds @ ds')\<rparr>"
    by (auto simp add: s2 s1 fun_eq_iff)
  ultimately show ?thesis
    unfolding onlyAdds_def by blast
qed

lemma onlyAdds_mark:
  assumes "\<not> warned s k"
  shows "onlyAdds {k} s (mark_warned k s)"
proof -
  have "mark_warned k s =
      s\<lparr>warnedProperties := (\<lambda>x. if x \<in> {k} then Some True else warnedProperties s x),
        emitted := emitted s @ []\<rparr>"
    by (auto simp add: mark_warned_def fun_eq_iff)
  with assms show ?thesis
    unfolding onlyAdds_def by blast
qed

lemma onlyAdds_emit: "onlyAdds {} s (s\<lparr>emitted := emitted s @ ds\<rparr>)"
proof -
  have "s\<lparr>emitted := emitted s @ ds\<rparr> =
      s\<lparr>warnedProperties := (\<lambda>x. if x \<in> {} then Some True else warnedProperties s x),
        emitted := emitted s @ ds\<rparr>"
    by simp
  then show ?thesis
    unfolding onlyAdds_def by blast
qed

lemma validatePropertyDev_onlyAdds:
  "onlyAdds {k} s (snd (validatePropertyDev env tag k debugID s))"
proof -
  from validatePropertyDev_cases [of s k env tag debugID]
  consider (unchanged) "validatePropertyDev env tag k debugID s = (True, s)"
    | (collected) "\<not> warned s k" "validatePropertyDev env tag k debugID s = (False, mark_warned k s)"
    | (reported) fmt rest where "\<not> warned s k"
        "validatePropertyDev env tag k debugID s =
           (True, mark_warned k (warning False fmt (k # rest) s))"
    by blast
  then show ?thesis
  proof cases
    case unchanged
    then show ?thesis by (simp add: onlyAdds_refl)
  next
    case collected
    then show ?thesis by (simp add: onlyAdds_mark)
  next
    case reported
    have "onlyAdds ({} \<union> {k}) s (mark_warned k (warning False fmt (k # rest) s))"
    proof (rule onlyAdds_trans)
      show "onlyAdds {} s (warning False fmt (k # rest) s)"
        unfolding warning_def using onlyAdds_emit by simp
      show "onlyAdds {k} (warning False fmt (k # rest) s)
          (mark_warned k (warning False fmt (k # rest) s))"
        using reported(1) by (intro onlyAdds_mark) simp
    qed
    with reported(2) show ?thesis by simp
  qed
qed

lemma forInDev_onlyAdds:
  "onlyAdds (set keys) s (snd (forInDev env tag debugID keys ([], s)))"
proof (induction keys arbitrary: s)
  case Nil
  show ?case by (simp add: onlyAdds_refl)
next
  case (Cons k ks)
  have "onlyAdds ({k} \<union> set ks) s
      (snd (forInDev env tag debugID ks ([], snd (validatePropertyDev env tag k debugID s))))"
    using validatePropertyDev_onlyAdds Cons.IH by (rule onlyAdds_trans)
  then show ?case
    unfolding forInDev_Cons by simp
qed

lemma validatePropertiesDev_onlyAdds:
  "onlyAdds (fst ` set ps) s (validatePropertiesDev env tag ps debugID s)"
proof (cases "isCustomComponent env tag ps")
  case True
  then show ?thesis
    by (simp add: validatePropertiesDev_eq onlyAdds_refl)
next
  case False
  let ?loop = "forInDev env tag debugID (map fst ps) ([], s)"
  have "onlyAdds (set (map fst ps) \<union> {}) s
      ((snd ?loop)\<lparr>emitted := emitted (snd ?loop) @ batchReport env tag debugID (fst ?loop)\<rparr>)"
    using forInDev_onlyAdds onlyAdds_emit by (rule onlyAdds_trans)
  with False show ?thesis
    by (simp add: validatePropertiesDev_eq warnInvalidARIAPropsDev_eq)
qed

text \<open>When every value of the cache is \<open>true\<close>, such a step only adds entries to it.\<close>

lemma onlyAdds_cache:
  assumes "onlyAdds K s s'" and "\<forall>k v. warnedProperties s k = Some v \<longrightarrow> v"
  shows "(\<forall>k v. warnedProperties s' k = Some v \<longrightarrow> v) \<and>
    warnedProperties s \<subseteq>\<^sub>m warnedProperties s'"
proof -
  from assms(1) obtain ds N where nw: "\<forall>k \<in> N. \<not> warned s k"
    and s': "s' = s\<lparr>warnedProperties := (\<lambda>k. if k \<in> N then Some True else warnedProperties s k),
        emitted := emitted s @ ds\<rparr>"
    unfolding onlyAdds_def by blast
  have "warnedProperties s k = None" if "k \<in> N" for k
  proof (cases "warnedProperties s k")
    case None
    then show ?thesis .
  next
    case (Some v)
    with assms(2) have v by blast
    with Some nw that show ?thesis
      by (auto simp add: warned_def)
  qed
  then have "warnedProperties s \<subseteq>\<^sub>m warnedProperties s'"
    by (auto simp add: s' map_le_def)
  moreover have "\<forall>k v. warnedProperties s' k = Some v \<longrightarrow> v"
    using assms(2) by (auto simp add: s')
  ultimately show ?thesis by blast
qed

subsection \<open>Names that are settled\<close>

text \<open>
  A name is settled in a state when it is warned there or silent: \<open>validatePropertyDev\<close> then
  changes nothing. One call of \<open>validatePropertyDev\<close> settles its name.
\<close>

lemma validatePropertyDev_settled:
  "warned s k \<or> silent env k \<Longrightarrow> validatePropertyDev env tag k debugID s = (True, s)"
  using validatePropertyDev_warned validatePropertyDev_silent by blast

lemma validatePropertyDev_warned_other:
  "n \<noteq> k \<Longrightarrow> warned (snd (validatePropertyDev env tag k debugID s)) n = warned s n"
  using validatePropertyDev_cases [of s k env tag debugID] by auto

lemma validatePropertyDev_settles:
  "warned (snd (validatePropertyDev env tag k debugID s)) k \<or> silent env k"
  using validatePropertyDev_cases [of s k env tag debugID] validatePropertyDev_silent [of env k tag debugID s]
  by (cases "warned s k") auto

lemma forInDev_warned_mono:
  "warned s n \<Longrightarrow> warned (snd (forInDev env tag debugID keys ([], s))) n"
  using forInDev_report [of env s tag debugID keys] by (auto simp add: loopReport_def)

lemma forInDev_settles:
  "\<forall>k \<in> set keys. warned (snd (forInDev env tag debugID keys ([], s))) k \<or> silent env k"
proof (induction keys arbitrary: s)
  case Nil
  show ?case by simp
next
  case (Cons k ks)
  let ?s1 = "snd (validatePropertyDev env tag k debugID s)"
  have "warned (snd (forInDev env tag debugID ks ([], ?s1))) k \<or> silent env k"
    using validatePropertyDev_settles [of env tag k debugID s] forInDev_warned_mono by blast
  with Cons.IH [of ?s1] show ?case
    unfolding forInDev_Cons by simp
qed

lemma forInDev_settled:
  "\<forall>k \<in> set keys. warned s k \<or> silent env k \<Longrightarrow> forInDev env tag debugID keys ([], s) = ([], s)"
proof (induction keys)
  case Nil
  show ?case by simp
next
  case (Cons k ks)
  then have "validatePropertyDev env tag k debugID s = (True, s)"
    by (intro validatePropertyDev_settled) simp
  with Cons show ?case
    unfolding forInDev_Cons by simp
qed

lemma batchReport_Nil: "batchReport env tag debugID [] = []"
  by (simp add: batchReport_def)

lemma validatePropertiesDev_idempotent:
  "validatePropertiesDev env tag ps debugID (validatePropertiesDev env tag ps debugID s) =
     validatePropertiesDev env tag ps debugID s"
proof (cases "isCustomComponent env tag ps")
  case True
  then show ?thesis by (simp add: validatePropertiesDev_eq)
next
  case False
  let ?loop = "forInDev env tag debugID (map fst ps) ([], s)"
  let ?s' = "(snd ?loop)\<lparr>emitted := emitted (snd ?loop) @ batchReport env tag debugID (fst ?loop)\<rparr>"
  have "\<forall>k \<in> set (map fst ps). warned ?s' k \<or> silent env k"
    using forInDev_settles [of "map fst ps" env tag debugID s] by simp
  then have "forInDev env tag debugID (map fst ps) ([], ?s') = ([], ?s')"
    by (rule forInDev_settled)
  then have "warnInvalidARIAPropsDev env tag ps debugID ?s' = ?s'"
    by (subst warnInvalidARIAPropsDev_eq) (simp add: batchReport_Nil)
  with False show ?thesis
    by (simp add: validatePropertiesDev_eq warnInvalidARIAPropsDev_eq [of env tag ps debugID s])
qed

subsection \<open>The names the loop collects\<close>

lemma forInDev_collects:
  "distinct keys \<Longrightarrow>
     fst (forInDev env tag debugID keys ([], s)) =
       filter (\<lambda>k. \<not> warned s k \<and> rARIA_test env k \<and> toLowerCase k \<notin> validAriaProperties env)
         keys"
proof (induction keys arbitrary: s)
  case Nil
  show ?case by simp
next
  case (Cons k ks)
  let ?s1 = "snd (validatePropertyDev env tag k debugID s)"
  let ?P = "\<lambda>s k. \<not> warned s k \<and> rARIA_test env k \<and> toLowerCase k \<notin> validAriaProperties env"
  from Cons.prems have d: "distinct ks" and nk: "k \<notin> set ks"
    by simp_all
  have "filter (?P ?s1) ks = filter (?P s) ks"
  proof (rule filter_cong [OF refl])
    fix x assume "x \<in> set ks"
    with nk have "x \<noteq> k" by blast
    then show "?P ?s1 x = ?P s x"
      by (simp add: validatePropertyDev_warned_other)
  qed
  with Cons.IH [OF d, of ?s1]
  have rest: "fst (forInDev env tag debugID ks ([], ?s1)) = filter (?P s) ks"
    by simp
  have "(if fst (validatePropertyDev env tag k debugID s) then [] else [k]) =
      (if ?P s k then [k] else [])"
    using validatePropertyDev_invalid_iff [of env tag k debugID s] by auto
  with rest show ?case
    unfolding forInDev_Cons by simp
qed

subsection \<open>The two builds\<close>

text \<open>
  In a development build the functions of the module return what the functions of the
  development build give. In a production build a name of one of the two patterns that is
  not warned makes \<open>validateProperty\<close> throw, and no call changes the state.
\<close>

lemma validateProperty_DEV:
  "DEV env \<Longrightarrow>
     validateProperty env tag name debugID s =
       (Inr (fst (validatePropertyDev env tag name debugID s)),
        snd (validatePropertyDev env tag name debugID s))"
  using validateProperty_dev [of env tag name debugID s] by (simp add: dev_DEV)

lemma validateProperty_production:
  "\<not> DEV env \<Longrightarrow>
     validateProperty env tag name debugID s =
       (if warned s name \<or> (\<not> rARIACamel_test env name \<and> \<not> rARIA_test env name)
        then (Inr True, s) else (Inl TypeError, s))"
  by (simp add: validateProperty_def camelCheck_def hyphenCheck_def Let_def)

lemma forIn_DEV:
  "DEV env \<Longrightarrow>
     forIn env tag debugID keys (acc, s) =
       (Inr (fst (forInDev env tag debugID keys (acc, s))),
        snd (forInDev env tag debugID keys (acc, s)))"
  using forIn_dev [of env tag debugID keys acc s] by (simp add: dev_DEV)

lemma forIn_production:
  "\<not> DEV env \<Longrightarrow>
     snd (forIn env tag debugID keys (acc, s)) = s \<and>
     (fst (forIn env tag debugID keys (acc, s)) = Inl TypeError \<or>
      fst (forIn env tag debugID keys (acc, s)) = Inr acc)"
  by (induction keys) (simp_all add: validateProperty_production)

lemma validateProperties_DEV:
  assumes "DEV env"
  shows "validateProperties env tag ps debugID s =
    \<lparr>returned = Inr (), props_after = ps,
     state_after = validatePropertiesDev env tag ps debugID s\<rparr>"
proof -
  have "warnInvalidARIAProps env tag ps debugID s =
      \<lparr>returned = Inr (), props_after = ps,
       state_after = warnInvalidARIAPropsDev env tag ps debugID s\<rparr>"
    using warnInvalidARIAProps_dev [of env tag ps debugID s] assms
    by (simp add: dev_DEV warnInvalidARIAPropsDev_eq)
  then show ?thesis
    by (simp add: validateProperties_def validatePropertiesDev_eq)
qed

lemma validateProperties_production:
  assumes "\<not> DEV env"
  shows "props_after (validateProperties env tag ps debugID s) = ps \<and>
    state_after (validateProperties env tag ps debugID s) = s"
proof -
  let ?loop = "forIn env tag debugID (map fst ps) ([], s)"
  from forIn_production [OF assms, of tag debugID "map fst ps" "[]" s]
  have "?loop = (Inl TypeError, s) \<or> ?loop = (Inr [], s)"
    by (cases ?loop) auto
  then show ?thesis
    by (auto simp add: validateProperties_def warnInvalidARIAProps_def)
qed


lemma state_after_validateProperties:
  "state_after (validateProperties env tag ps debugID s) =
     (if DEV env then validatePropertiesDev env tag ps debugID s else s)"
  using validateProperties_DEV [of env tag ps debugID s]
    validateProperties_production [of env tag ps debugID s]
  by (cases "DEV env") simp_all

text \<open>The entry points of Stack return; they leave the state as it is or validate.\<close>

lemma onBeforeMountComponent_cases:
  "onBeforeMountComponent env debugID element s = (Inr (), s) \<or>
   (\<exists>tag ps. onBeforeMountComponent env debugID element s =
      (Inr (), validatePropertiesDev env tag ps debugID s))"
  by (auto simp add: onBeforeMountComponent_def validateProperties_DEV
      split: option.splits elementType.splits)

lemma onBeforeUpdateComponent_cases:
  "onBeforeUpdateComponent env debugID element s = (Inr (), s) \<or>
   (\<exists>tag ps. onBeforeUpdateComponent env debugID element s =
      (Inr (), validatePropertiesDev env tag ps debugID s))"
  by (auto simp add: onBeforeUpdateComponent_def validateProperties_DEV
      split: option.splits elementType.splits)

text \<open>
  So a step of a process leaves the state as it is or is a call of \<open>validateProperties\<close>
  in the development build.
\<close>

lemma exported_steps:
  "state_after (validateProperties env tag ps debugID s) = s \<or>
   state_after (validateProperties env tag ps debugID s) =
     validatePropertiesDev env tag ps debugID s"
  "snd (onBeforeMountComponent env debugID element s) = s \<or>
   (\<exists>tag ps. snd (onBeforeMountComponent env debugID element s) =
      validatePropertiesDev env tag ps debugID s)"
  "snd (onBeforeUpdateComponent env debugID element s) = s \<or>
   (\<exists>tag ps. snd (onBeforeUpdateComponent env debugID element s) =
      validatePropertiesDev env tag ps debugID s)"
proof -
  show "state_after (validateProperties env tag ps debugID s) = s \<or>
     state_after (validateProperties env tag ps debugID s) =
       validatePropertiesDev env tag ps debugID s"
    by (simp add: state_after_validateProperties)
  show "snd (onBeforeMountComponent env debugID element s) = s \<or>
     (\<exists>tag ps. snd (onBeforeMountComponent env debugID element s) =
        validatePropertiesDev env tag ps debugID s)"
    using onBeforeMountComponent_cases [of env debugID element s] by (metis snd_conv)
  show "snd (onBeforeUpdateComponent env debugID element s) = s \<or>
     (\<exists>tag ps. snd (onBeforeUpdateComponent env debugID element s) =
        validatePropertiesDev env tag ps debugID s)"
    using onBeforeUpdateComponent_cases [of env debugID element s] by (metis snd_conv)
qed

text \<open>
  An invariant of the states that is kept by every call of \<open>validateProperties\<close> in the
  development build holds of every state that a process reaches.
\<close>

lemma reachable_invariant:
  assumes "reachable env s" and "P initial_state"
    and "\<And>s tag ps debugID. P s \<Longrightarrow> P (validatePropertiesDev env tag ps debugID s)"
  shows "P s"
  using assms(1)
proof (induction rule: reachable.induct)
  case start
  show ?case by (rule assms(2))
next
  case (validate s tag ps debugID)
  with exported_steps(1) [of env tag ps debugID s] assms(3) show ?case
    by auto
next
  case (mount s debugID element)
  with exported_steps(2) [of env debugID element s] assms(3) show ?case
    by auto
next
  case (update s debugID element)
  with exported_steps(3) [of env debugID element s] assms(3) show ?case
    by auto
qed

subsection \<open>The states a process reaches\<close>

text \<open>Over the life of a process a name is reported at most once, and is warned from then on.\<close>

lemma callReport_step:
  assumes "callReport env s s' ds"
    and "length (filter (cites n) (emitted s)) \<le> 1"
    and "0 < length (filter (cites n) (emitted s)) \<longrightarrow> warned s n"
  shows "length (filter (cites n) (emitted s')) \<le> 1 \<and>
    (0 < length (filter (cites n) (emitted s')) \<longrightarrow> warned s' n)"
proof -
  from assms(1) have e: "emitted s' = emitted s @ ds"
    and c: "length (filter (cites n) ds) \<le> (if warned s n then 0 else 1)"
    and w: "0 < length (filter (cites n) ds) \<Longrightarrow> warned s' n"
    and m: "warned s n \<Longrightarrow> warned s' n"
    by (auto simp add: callReport_def)
  have l: "length (filter (cites n) (emitted s')) =
      length (filter (cites n) (emitted s)) + length (filter (cites n) ds)"
    by (simp add: e)
  show ?thesis
  proof (cases "warned s n")
    case True
    with c assms(2) m show ?thesis
      unfolding l by simp
  next
    case False
    with assms(3) have "length (filter (cites n) (emitted s)) = 0"
      by auto
    with c w show ?thesis
      unfolding l by (auto split: if_splits)
  qed
qed

lemma reachable_reported_once:
  assumes "\<not> ATTRIBUTE_NAME_CHAR env (CHR '','')" and "reachable env s"
  shows "length (filter (cites n) (emitted s)) \<le> 1 \<and>
    (0 < length (filter (cites n) (emitted s)) \<longrightarrow> warned s n)"
  using assms(2)
proof (rule reachable_invariant)
  show "length (filter (cites n) (emitted initial_state)) \<le> 1 \<and>
      (0 < length (filter (cites n) (emitted initial_state)) \<longrightarrow> warned initial_state n)"
    by (simp add: initial_state_def)
next
  fix s :: state and tag ps debugID
  assume inv: "length (filter (cites n) (emitted s)) \<le> 1 \<and>
      (0 < length (filter (cites n) (emitted s)) \<longrightarrow> warned s n)"
  obtain ds where "callReport env s (validatePropertiesDev env tag ps debugID s) ds"
    using validatePropertiesDev_report [OF assms(1)] by blast
  then show "length (filter (cites n) (emitted (validatePropertiesDev env tag ps debugID s))) \<le> 1 \<and>
      (0 < length (filter (cites n) (emitted (validatePropertiesDev env tag ps debugID s))) \<longrightarrow>
       warned (validatePropertiesDev env tag ps debugID s) n)"
    using inv by (intro callReport_step) auto
qed

text \<open>Every value in the cache of such a state is \<open>true\<close>, and a step only adds to the cache.\<close>

lemma reachable_cache_true:
  assumes "reachable env s"
  shows "\<forall>k v. warnedProperties s k = Some v \<longrightarrow> v"
  using assms
proof (rule reachable_invariant)
  show "\<forall>k v. warnedProperties initial_state k = Some v \<longrightarrow> v"
    by (simp add: initial_state_def)
next
  fix s :: state and tag ps debugID
  assume "\<forall>k v. warnedProperties s k = Some v \<longrightarrow> v"
  with validatePropertiesDev_onlyAdds [of ps s env tag debugID]
  show "\<forall>k v. warnedProperties (validatePropertiesDev env tag ps debugID s) k = Some v \<longrightarrow> v"
    using onlyAdds_cache by blast
qed

lemma exported_steps_onlyAdds:
  "onlyAdds (fst ` set ps) s (state_after (validateProperties env tag ps debugID s))"
  "\<exists>K. onlyAdds K s (snd (onBeforeMountComponent env debugID element s))"
  "\<exists>K. onlyAdds K s (snd (onBeforeUpdateComponent env debugID element s))"
proof -
  show "onlyAdds (fst ` set ps) s (state_after (validateProperties env tag ps debugID s))"
    using validatePropertiesDev_onlyAdds [of ps s env tag debugID] onlyAdds_refl [of _ s]
    by (simp add: state_after_validateProperties)
  show "\<exists>K. onlyAdds K s (snd (onBeforeMountComponent env debugID element s))"
    using exported_steps(2) [of env debugID element s]
      validatePropertiesDev_onlyAdds [of _ s env _ debugID] onlyAdds_refl [of _ s]
    by metis
  show "\<exists>K. onlyAdds K s (snd (onBeforeUpdateComponent env debugID element s))"
    using exported_steps(3) [of env debugID element s]
      validatePropertiesDev_onlyAdds [of _ s env _ debugID] onlyAdds_refl [of _ s]
    by metis
qed

subsection \<open>A name that is reported on its own\<close>

text \<open>
  A name among the keys that is not warned, and for which \<open>validatePropertyDev\<close> emits a
  diagnostic of its own and marks the name: the loop and the call emit that diagnostic
  and leave the name warned; it is the one diagnostic of the call that reports the name.
\<close>

lemma filter_single:
  assumes "x \<in> set xs" and "P x" and "length (filter P xs) \<le> 1"
  shows "filter P xs = [x]"
proof -
  from assms(1,2) have m: "x \<in> set (filter P xs)"
    by simp
  show ?thesis
  proof (cases "filter P xs")
    case Nil
    with m show ?thesis by simp
  next
    case (Cons y ys)
    with assms(3) have "ys = []"
      by simp
    with Cons m show ?thesis
      by simp
  qed
qed

lemma forInDev_emitted:
  "\<exists>ds. emitted (snd (forInDev env tag debugID keys ([], s))) = emitted s @ ds"
  using forInDev_report [of env s tag debugID keys] by (auto simp add: loopReport_def)

lemma forInDev_reports:
  assumes "name \<in> set keys" and "\<not> warned s name"
    and rep: "\<And>s'. \<not> warned s' name \<Longrightarrow>
      validatePropertyDev env tag name debugID s' =
        (True, mark_warned name (warning False fmt as s'))"
  shows "Warning fmt as \<in> set (added s (snd (forInDev env tag debugID keys ([], s)))) \<and>
    warned (snd (forInDev env tag debugID keys ([], s))) name"
  using assms(1,2)
proof (induction keys arbitrary: s)
  case Nil
  then show ?case by simp
next
  case (Cons k ks)
  let ?s1 = "snd (validatePropertyDev env tag k debugID s)"
  let ?s2 = "snd (forInDev env tag debugID ks ([], ?s1))"
  obtain ds where e2: "emitted ?s2 = emitted ?s1 @ ds"
    using forInDev_emitted by blast
  have fin: "snd (forInDev env tag debugID (k # ks) ([], s)) = ?s2"
    unfolding forInDev_Cons by simp
  show ?case
  proof (cases "k = name")
    case True
    with rep [OF Cons.prems(2)] have s1: "?s1 = mark_warned name (warning False fmt as s)"
      by simp
    then have "emitted ?s2 = emitted s @ (Warning fmt as # ds)"
      using e2 by simp
    then have "added s ?s2 = Warning fmt as # ds"
      by (rule added_append)
    moreover have "warned ?s1 name"
      by (simp add: s1)
    then have "warned ?s2 name"
      by (rule forInDev_warned_mono)
    ultimately show ?thesis
      unfolding fin by simp
  next
    case False
    with Cons.prems(1) have "name \<in> set ks"
      by simp
    moreover from False Cons.prems(2) have "\<not> warned ?s1 name"
      by (simp add: validatePropertyDev_warned_other)
    ultimately have ih: "Warning fmt as \<in> set (added ?s1 ?s2) \<and> warned ?s2 name"
      by (rule Cons.IH)
    obtain ds0 where e1: "emitted ?s1 = emitted s @ ds0"
      using validatePropertyDev_onlyAdds [of k s env tag debugID]
      unfolding onlyAdds_def by auto
    from e2 have "added ?s1 ?s2 = ds"
      by (rule added_append)
    moreover from e1 e2 have "emitted ?s2 = emitted s @ (ds0 @ ds)"
      by simp
    then have "added s ?s2 = ds0 @ ds"
      by (rule added_append)
    ultimately show ?thesis
      unfolding fin using ih by simp
  qed
qed

lemma validatePropertiesDev_reports:
  assumes "\<not> isCustomComponent env tag ps" and "name \<in> fst ` set ps" and "\<not> warned s name"
    and rep: "\<And>s'. \<not> warned s' name \<Longrightarrow>
      validatePropertyDev env tag name debugID s' =
        (True, mark_warned name (warning False fmt as s'))"
  shows "Warning fmt as \<in> set (added s (validatePropertiesDev env tag ps debugID s)) \<and>
    warned (validatePropertiesDev env tag ps debugID s) name"
proof -
  let ?loop = "forInDev env tag debugID (map fst ps) ([], s)"
  let ?s' = "(snd ?loop)\<lparr>emitted := emitted (snd ?loop) @ batchReport env tag debugID (fst ?loop)\<rparr>"
  from assms(2) have "name \<in> set (map fst ps)"
    by simp
  from forInDev_reports [OF this assms(3) rep]
  have w: "Warning fmt as \<in> set (added s (snd ?loop))" and m: "warned (snd ?loop) name"
    by simp_all
  obtain ds where e: "emitted (snd ?loop) = emitted s @ ds"
    using forInDev_emitted by blast
  then have "added s (snd ?loop) = ds"
    by (rule added_append)
  moreover from e have "emitted ?s' = emitted s @ (ds @ batchReport env tag debugID (fst ?loop))"
    by simp
  then have "added s ?s' = ds @ batchReport env tag debugID (fst ?loop)"
    by (rule added_append)
  ultimately have "Warning fmt as \<in> set (added s ?s')"
    using w by simp
  moreover from m have "warned ?s' name"
    by simp
  moreover have "validatePropertiesDev env tag ps debugID s = ?s'"
    using assms(1) by (simp add: validatePropertiesDev_eq warnInvalidARIAPropsDev_eq)
  ultimately show ?thesis
    by simp
qed

lemma validatePropertiesDev_reports_once:
  assumes "\<not> ATTRIBUTE_NAME_CHAR env (CHR '','')" and "\<not> warned s name"
    and "fmt \<in> perNameFormats"
    and "Warning fmt (name # rest) \<in> set (added s (validatePropertiesDev env tag ps debugID s))"
  shows "filter (cites name) (added s (validatePropertiesDev env tag ps debugID s)) =
    [Warning fmt (name # rest)]"
proof -
  obtain ds where r: "callReport env s (validatePropertiesDev env tag ps debugID s) ds"
    using validatePropertiesDev_report [OF assms(1)] by blast
  then have a: "added s (validatePropertiesDev env tag ps debugID s) = ds"
    by (simp add: callReport_def added_append)
  from r assms(2) have "length (filter (cites name) ds) \<le> 1"
    unfolding callReport_def by (metis (full_types))
  moreover have "cites name (Warning fmt (name # rest))"
    using assms(3) by (simp add: cites_perName)
  ultimately show ?thesis
    using assms(4) unfolding a by (intro filter_single)
qed

lemma count_list_le_filter:
  "P x \<Longrightarrow> count_list xs x \<le> length (filter P xs)"
  by (induction xs) auto

lemma batchReport_formats:
  "\<forall>d \<in> set (batchReport env tag debugID invalid). format d \<in> batchFormats"
proof (cases invalid)
  case Nil
  then show ?thesis by (simp add: batchReport_def)
next
  case (Cons k ks)
  then show ?thesis
    by (cases ks) (simp_all add: batchReport_def batchFormats_def)
qed

lemma validatePropertiesDev_reports_one:
  assumes "\<not> isCustomComponent env tag ps" and "name \<in> fst ` set ps" and "\<not> warned s name"
    and fmt: "fmt \<in> perNameFormats"
    and rep: "\<And>s'. \<not> warned s' name \<Longrightarrow>
      validatePropertyDev env tag name debugID s' =
        (True, mark_warned name (warning False fmt (name # rest) s'))"
  shows "count_list (added s (validatePropertiesDev env tag ps debugID s))
    (Warning fmt (name # rest)) = 1"
proof -
  let ?W = "Warning fmt (name # rest)"
  let ?loop = "forInDev env tag debugID (map fst ps) ([], s)"
  let ?b = "batchReport env tag debugID (fst ?loop)"
  let ?s' = "(snd ?loop)\<lparr>emitted := emitted (snd ?loop) @ ?b\<rparr>"
  obtain ds where r: "loopReport env s (fst ?loop) (snd ?loop) ds"
    using forInDev_report by blast
  then have e: "emitted (snd ?loop) = emitted s @ ds"
    and c: "length (filter (cites name) ds) + count_list (fst ?loop) name \<le>
      (if warned s name then 0 else 1)"
    by (simp_all add: loopReport_def)
  from e have a: "added s (snd ?loop) = ds"
    by (rule added_append)
  from assms(2) have "name \<in> set (map fst ps)"
    by simp
  from forInDev_reports [OF this assms(3) rep] have "?W \<in> set ds"
    unfolding a by simp
  then have "0 < count_list ds ?W"
    using count_list_0_iff [of ds ?W] by auto
  moreover have "cites name ?W"
    using fmt by (simp add: cites_perName)
  then have "count_list ds ?W \<le> length (filter (cites name) ds)"
    by (rule count_list_le_filter)
  with c assms(3) have "count_list ds ?W \<le> 1"
    by simp
  moreover have "?W \<notin> set ?b"
    using batchReport_formats [of env tag debugID "fst ?loop"] formats_disjoint [OF fmt]
    by auto
  then have "count_list ?b ?W = 0"
    by simp
  moreover from e have "emitted ?s' = emitted s @ (ds @ ?b)"
    by simp
  then have "added s ?s' = ds @ ?b"
    by (rule added_append)
  moreover have "validatePropertiesDev env tag ps debugID s = ?s'"
    using assms(1) by (simp add: validatePropertiesDev_eq warnInvalidARIAPropsDev_eq)
  ultimately show ?thesis
    by simp
qed

lemma forInDev_not_collected:
  "\<not> rARIA_test env name \<Longrightarrow> name \<notin> set (fst (forInDev env tag debugID keys ([], s)))"
  using forInDev_report [of env s tag debugID keys] by (auto simp add: loopReport_def)

subsection \<open>The example environment\<close>

lemma exampleEnv_simps [simp]:
  "DEV exampleEnv"
  "validAriaProperties exampleEnv = {''aria-hidden'', ''aria-label'', ''aria-labelledby''}"
  "isCustomComponent exampleEnv tag ps \<longleftrightarrow> CHR ''-'' \<in> set tag"
  "getStackAddendum exampleEnv debugID = []"
  "\<not> ATTRIBUTE_NAME_CHAR exampleEnv (CHR '','')"
  by (simp_all add: exampleEnv_def getStackAddendum_def isUpperAZ_def split: option.splits)

lemma example_patterns [simp]:
  "rARIACamel_test exampleEnv ''ariaFooBar''"
  "rARIA_test exampleEnv ''aria-foo''"
  "rARIA_test exampleEnv ''aria-bar''"
  "rARIA_test exampleEnv ''aria-Hidden''"
  "rARIA_test exampleEnv ''aria-hidden''"
  "\<not> rARIA_test exampleEnv ''className''"
  "\<not> rARIACamel_test exampleEnv ''className''"
  by (simp_all add: rARIACamel_test_def rARIA_test_def exampleEnv_def isUpperAZ_def)

lemma example_lowercase [simp]:
  "toLowerCase ''FooBar'' = ''foobar''"
  "toLowerCase ''aria-foo'' = ''aria-foo''"
  "toLowerCase ''aria-bar'' = ''aria-bar''"
  "toLowerCase ''aria-Hidden'' = ''aria-hidden''"
  "toLowerCase ''aria-hidden'' = ''aria-hidden''"
  by (simp_all add: toLowerCase_def toLowerCase_char_def isUpperCase_def isUpperAZ_def
      char_of_def bit_Suc_0_iff)

lemma initial_state_simps [simp]:
  "\<not> warned initial_state name"
  "emitted initial_state = []"
  "warnedProperties initial_state = Map.empty"
  by (simp_all add: initial_state_def warned_def)

lemma productionEnv_simps [simp]:
  "\<not> DEV productionEnv"
  "isCustomComponent productionEnv tag ps \<longleftrightarrow> CHR ''-'' \<in> set tag"
  "rARIA_test productionEnv name = rARIA_test exampleEnv name"
  "rARIACamel_test productionEnv name = rARIACamel_test exampleEnv name"
  by (simp_all add: productionEnv_def exampleEnv_def rARIA_test_def rARIACamel_test_def)

text \<open>The equations that run a call in the example environment.\<close>

lemmas run_example =
  state_after_validateProperties validateProperties_DEV validatePropertiesDev_eq
  warnInvalidARIAPropsDev_eq validatePropertyDev_hyphen_unknown validatePropertyDev_neither
  validatePropertyDev_warned validatePropertyDev_camel_unknown validatePropertyDev_hyphen_case
  validatePropertyDev_hyphen_exact batchReport_def quoted_def

section \<open>Properties of the specification\<close>

text \<open>
  C1. Where a comma is no attribute-name character, in every state that a process
  reaches at most one of the diagnostics emitted so far reports a given name, and when a
  call of \<open>validateProperties\<close> reports a name, the next call does not report it,
  whatever its tag and properties are. A second call with the same tag and properties
  completes as the first did and leaves the state that the first left, so it emits
  nothing.
\<close>

theorem reported_once_per_name:
  "(\<not> ATTRIBUTE_NAME_CHAR env (CHR '','') \<longrightarrow>
      (reachable env s \<longrightarrow> length (filter (cites n) (emitted s)) \<le> 1) \<and>
      (filter (cites n) (added s0 (state_after (validateProperties env tag ps debugID s0))) \<noteq> [] \<longrightarrow>
         filter (cites n)
           (added (state_after (validateProperties env tag ps debugID s0))
              (state_after (validateProperties env tag' ps' debugID'
                 (state_after (validateProperties env tag ps debugID s0))))) = [])) \<and>
   validateProperties env tag ps debugID
       (state_after (validateProperties env tag ps debugID s0)) =
     validateProperties env tag ps debugID s0"
proof (cases "DEV env")
  case False
  then have same: "\<And>tag ps debugID s. state_after (validateProperties env tag ps debugID s) = s"
    by (simp add: state_after_validateProperties)
  have "length (filter (cites n) (emitted s)) \<le> 1"
    if "\<not> ATTRIBUTE_NAME_CHAR env (CHR '','')" and "reachable env s"
    using reachable_reported_once [OF that] by blast
  then show ?thesis
    unfolding same by simp
next
  case True
  then have dev: "\<And>tag ps debugID s. state_after (validateProperties env tag ps debugID s) =
      validatePropertiesDev env tag ps debugID s"
    by (simp add: state_after_validateProperties)
  let ?s1 = "validatePropertiesDev env tag ps debugID s0"
  let ?s2 = "validatePropertiesDev env tag' ps' debugID' ?s1"
  have once: "length (filter (cites n) (emitted s)) \<le> 1"
    if "\<not> ATTRIBUTE_NAME_CHAR env (CHR '','')" and "reachable env s"
    using reachable_reported_once [OF that] by blast
  have again: "filter (cites n) (added ?s1 ?s2) = []"
    if nc: "\<not> ATTRIBUTE_NAME_CHAR env (CHR '','')"
      and cited: "filter (cites n) (added s0 ?s1) \<noteq> []"
  proof -
    obtain ds where r1: "callReport env s0 ?s1 ds"
      using validatePropertiesDev_report [OF nc] by blast
    obtain ds' where r2: "callReport env ?s1 ?s2 ds'"
      using validatePropertiesDev_report [OF nc] by blast
    from r1 have a1: "added s0 ?s1 = ds"
      by (simp add: callReport_def added_append)
    from r2 have a2: "added ?s1 ?s2 = ds'"
      by (simp add: callReport_def added_append)
    from cited a1 have "0 < length (filter (cites n) ds)"
      by simp
    with r1 have "warned ?s1 n"
      by (simp add: callReport_def)
    with r2 have "length (filter (cites n) ds') \<le> 0"
      unfolding callReport_def by (metis (full_types))
    with a2 show ?thesis
      by simp
  qed
  have "validateProperties env tag ps debugID ?s1 = validateProperties env tag ps debugID s0"
    using True by (simp add: validateProperties_DEV validatePropertiesDev_idempotent)
  with once again show ?thesis
    unfolding dev by blast
qed

theorem reported_once_per_name_witness:
  "\<not> ATTRIBUTE_NAME_CHAR exampleEnv (CHR '','') \<and>
   reachable exampleEnv
     (state_after (validateProperties exampleEnv ''span'' [(''aria-foo'', 3)] None
        (state_after (validateProperties exampleEnv ''div'' [(''aria-foo'', 1), (''aria-bar'', 2)]
           None initial_state)))) \<and>
   length (filter (cites ''aria-foo'')
     (emitted (state_after (validateProperties exampleEnv ''span'' [(''aria-foo'', 3)] None
        (state_after (validateProperties exampleEnv ''div'' [(''aria-foo'', 1), (''aria-bar'', 2)]
           None initial_state)))))) \<le> 1 \<and>
   filter (cites ''aria-foo'')
     (added initial_state
        (state_after (validateProperties exampleEnv ''div'' [(''aria-foo'', 1), (''aria-bar'', 2)]
           None initial_state))) \<noteq> [] \<and>
   filter (cites ''aria-foo'')
     (added
        (state_after (validateProperties exampleEnv ''div'' [(''aria-foo'', 1), (''aria-bar'', 2)]
           None initial_state))
        (state_after (validateProperties exampleEnv ''span'' [(''aria-foo'', 3)] None
           (state_after (validateProperties exampleEnv ''div''
              [(''aria-foo'', 1), (''aria-bar'', 2)] None initial_state))))) = [] \<and>
   validateProperties exampleEnv ''div'' [(''aria-foo'', 1), (''aria-bar'', 2)] None
     (state_after (validateProperties exampleEnv ''div'' [(''aria-foo'', 1), (''aria-bar'', 2)]
        None initial_state)) =
   validateProperties exampleEnv ''div'' [(''aria-foo'', 1), (''aria-bar'', 2)] None
     initial_state"
proof -
  let ?s1 = "state_after (validateProperties exampleEnv ''div''
    [(''aria-foo'', 1), (''aria-bar'', 2)] None initial_state)"
  let ?s2 = "state_after (validateProperties exampleEnv ''span'' [(''aria-foo'', 3)] None ?s1)"
  have nc: "\<not> ATTRIBUTE_NAME_CHAR exampleEnv (CHR '','')"
    by simp
  have re: "reachable exampleEnv ?s2"
    by (intro reachable.validate reachable.start)
  have e1: "emitted ?s1 =
      [Warning ''Invalid aria props %s on <%s> tag. For details, see https://fb.me/invalid-aria-prop%s''
         [''`aria-foo`, `aria-bar`'', ''div'', '''']]"
    by (simp add: run_example batchReport_def quoted_def)
  have c1: "filter (cites ''aria-foo'') (added initial_state ?s1) \<noteq> []"
    unfolding added_def e1
    by (simp add: cites_def batchFormats_def perNameFormats_def quoted_def)
  note r = reported_once_per_name [where env = exampleEnv and s = ?s2 and n = "''aria-foo''"
      and s0 = initial_state and tag = "''div''" and ps = "[(''aria-foo'', 1), (''aria-bar'', 2)]"
      and debugID = None and tag' = "''span''" and ps' = "[(''aria-foo'', 3)]" and debugID' = None]
  from r nc re c1 show ?thesis
    by blast
qed

text \<open>
  C2. A call of \<open>validateProperties\<close> in a development build on an element that is not
  custom, with distinct keys: let the unknown names be the keys that are not warned, of
  the hyphenated pattern and not in the table once lowercased, in the order of the keys.
  The call returns, and the diagnostics it adds are diagnostics of other formats followed
  by the batched one: none when there is no unknown name, the singular format with the
  one name between backticks when there is one, and otherwise the plural format with all
  of them between backticks, separated by a comma and a space.
\<close>

theorem batched_unknown_report:
  assumes "DEV env" and "\<not> isCustomComponent env tag ps" and "distinct (map fst ps)"
  shows "returned (validateProperties env tag ps debugID s) = Inr () \<and>
    (\<exists>ds. (\<forall>d \<in> set ds. format d \<notin> batchFormats) \<and>
      added s (state_after (validateProperties env tag ps debugID s)) =
        ds @
        (case unknownNames env s ps of
           [] \<Rightarrow> []
         | [k] \<Rightarrow>
             [Warning ''Invalid aria prop %s on <%s> tag. For details, see https://fb.me/invalid-aria-prop%s''
                [''`'' @ k @ ''`'', tag, getStackAddendum env debugID]]
         | k # k' # ks \<Rightarrow>
             [Warning ''Invalid aria props %s on <%s> tag. For details, see https://fb.me/invalid-aria-prop%s''
                [join '', '' (map (\<lambda>k. ''`'' @ k @ ''`'') (k # k' # ks)), tag,
                 getStackAddendum env debugID]]))"
proof -
  let ?loop = "forInDev env tag debugID (map fst ps) ([], s)"
  obtain ds where r: "loopReport env s (fst ?loop) (snd ?loop) ds"
    using forInDev_report by blast
  then have e: "emitted (snd ?loop) = emitted s @ ds"
    and f: "\<forall>d \<in> set ds. format d \<in> perNameFormats"
    by (simp_all add: loopReport_def)
  have c: "fst ?loop = unknownNames env s ps"
    unfolding unknownNames_def using assms(3) by (rule forInDev_collects)
  have q: "(\<lambda>k. ''`'' @ k @ ''`'') = quoted"
    by (simp add: quoted_def fun_eq_iff)
  have b: "batchReport env tag debugID (unknownNames env s ps) =
      (case unknownNames env s ps of
         [] \<Rightarrow> []
       | [k] \<Rightarrow>
           [Warning ''Invalid aria prop %s on <%s> tag. For details, see https://fb.me/invalid-aria-prop%s''
              [''`'' @ k @ ''`'', tag, getStackAddendum env debugID]]
       | k # k' # ks \<Rightarrow>
           [Warning ''Invalid aria props %s on <%s> tag. For details, see https://fb.me/invalid-aria-prop%s''
              [join '', '' (map (\<lambda>k. ''`'' @ k @ ''`'') (k # k' # ks)), tag,
               getStackAddendum env debugID]])"
    unfolding q by (simp add: batchReport_def quoted_def split: list.splits)
  have v: "validateProperties env tag ps debugID s =
      \<lparr>returned = Inr (), props_after = ps,
       state_after = validatePropertiesDev env tag ps debugID s\<rparr>"
    using assms(1) by (rule validateProperties_DEV)
  have "emitted (validatePropertiesDev env tag ps debugID s) =
      emitted s @ (ds @ batchReport env tag debugID (unknownNames env s ps))"
    using assms(2) by (simp add: validatePropertiesDev_eq warnInvalidARIAPropsDev_eq e c)
  then have "added s (validatePropertiesDev env tag ps debugID s) =
      ds @ batchReport env tag debugID (unknownNames env s ps)"
    by (rule added_append)
  moreover have "\<forall>d \<in> set ds. format d \<notin> batchFormats"
    using f formats_disjoint by blast
  ultimately show ?thesis
    unfolding b v by simp
qed

theorem batched_unknown_report_witness:
  "DEV exampleEnv \<and>
   \<not> isCustomComponent exampleEnv ''div'' [(''aria-foo'', 1), (''aria-bar'', 2)] \<and>
   distinct (map fst [(''aria-foo'', 1::nat), (''aria-bar'', 2)]) \<and>
   unknownNames exampleEnv initial_state [(''aria-foo'', 1), (''aria-bar'', 2)] =
     [''aria-foo'', ''aria-bar''] \<and>
   returned (validateProperties exampleEnv ''div'' [(''aria-foo'', 1), (''aria-bar'', 2)] None
     initial_state) = Inr () \<and>
   (\<exists>ds. (\<forall>d \<in> set ds. format d \<notin> batchFormats) \<and>
      added initial_state
        (state_after (validateProperties exampleEnv ''div'' [(''aria-foo'', 1), (''aria-bar'', 2)]
           None initial_state)) =
        ds @
        [Warning ''Invalid aria props %s on <%s> tag. For details, see https://fb.me/invalid-aria-prop%s''
           [''`aria-foo`, `aria-bar`'', ''div'', '''']])"
proof -
  have v: "DEV exampleEnv"
    by simp
  have c: "\<not> isCustomComponent exampleEnv ''div'' [(''aria-foo'', 1), (''aria-bar'', 2)]"
    by simp
  have d: "distinct (map fst [(''aria-foo'', 1::nat), (''aria-bar'', 2)])"
    by simp
  have u: "unknownNames exampleEnv initial_state [(''aria-foo'', 1), (''aria-bar'', 2)] =
      [''aria-foo'', ''aria-bar'']"
    by (simp add: unknownNames_def)
  from batched_unknown_report [OF v c d, of None initial_state]
  have "returned (validateProperties exampleEnv ''div'' [(''aria-foo'', 1), (''aria-bar'', 2)] None
     initial_state) = Inr () \<and>
    (\<exists>ds. (\<forall>d \<in> set ds. format d \<notin> batchFormats) \<and>
      added initial_state
        (state_after (validateProperties exampleEnv ''div'' [(''aria-foo'', 1), (''aria-bar'', 2)]
           None initial_state)) =
        ds @
        [Warning ''Invalid aria props %s on <%s> tag. For details, see https://fb.me/invalid-aria-prop%s''
           [''`aria-foo`, `aria-bar`'', ''div'', '''']])"
    unfolding u by simp
  with v c d u show ?thesis
    by blast
qed

text \<open>
  C3, as the spec states it: \<open>validateProperty\<close> collects an unknown hyphenated name
  without marking it warned. It does not hold: for \<open>aria-foo\<close>, from the initial state,
  the call returns \<open>false\<close> with nothing emitted yet and the name already in the cache.
\<close>

theorem unknown_name_marked_in_per_name_step:
  "fst (validateProperty exampleEnv ''div'' ''aria-foo'' None initial_state) = Inr False \<and>
   emitted (snd (validateProperty exampleEnv ''div'' ''aria-foo'' None initial_state)) = [] \<and>
   warnedProperties initial_state ''aria-foo'' = None \<and>
   warnedProperties (snd (validateProperty exampleEnv ''div'' ''aria-foo'' None initial_state))
     ''aria-foo'' = Some True"
  by (simp add: validateProperty_DEV validatePropertyDev_hyphen_unknown)

text \<open>
  C3, amended. In a development build, for a name of the hyphenated pattern that is not
  warned yet and whose lowercased form is not a key of the table, \<open>validateProperty\<close>
  returns \<open>false\<close>, so that the loop collects the name, emits nothing and marks the name
  as warned at that point; the batched message of \<open>warnInvalidARIAProps\<close> leaves the
  cache as the loop left it.
\<close>

theorem unknown_name_collected_and_marked:
  assumes "\<not> warned s name" and "rARIA_test env name"
    and "toLowerCase name \<notin> validAriaProperties env"
  shows "(DEV env \<longrightarrow>
      validateProperty env tag name debugID s =
        (Inr False, s\<lparr>warnedProperties := (warnedProperties s)(name \<mapsto> True)\<rparr>)) \<and>
    warnedProperties (state_after (warnInvalidARIAProps env tag' ps debugID' s')) =
      warnedProperties (snd (forIn env tag' debugID' (map fst ps) ([], s')))"
proof -
  have "validatePropertyDev env tag name debugID s = (False, mark_warned name s)"
    using assms by (rule validatePropertyDev_hyphen_unknown)
  then have "validateProperty env tag name debugID s = (Inr False, mark_warned name s)"
    if "DEV env"
    using that by (simp add: validateProperty_DEV)
  moreover have "warnedProperties (state_after (warnInvalidARIAProps env tag' ps debugID' s')) =
      warnedProperties (snd (forIn env tag' debugID' (map fst ps) ([], s')))"
    by (simp add: warnInvalidARIAProps_def callWarning_def warning_def Let_def
        split: prod.splits sum.splits)
  ultimately show ?thesis
    by (simp add: mark_warned_def)
qed

theorem unknown_name_collected_and_marked_witness:
  "DEV exampleEnv \<and>
   validateProperty exampleEnv ''div'' ''aria-foo'' None initial_state =
     (Inr False, \<lparr>warnedProperties = [''aria-foo'' \<mapsto> True], emitted = []\<rparr>) \<and>
   warnedProperties
     (state_after (warnInvalidARIAProps exampleEnv ''div'' [(''aria-foo'', 1)] None initial_state)) =
     warnedProperties (snd (forIn exampleEnv ''div'' None (map fst [(''aria-foo'', 1::nat)])
       ([], initial_state)))"
proof -
  have v: "DEV exampleEnv"
    by simp
  have a: "\<not> warned initial_state ''aria-foo''"
    by simp
  have b: "rARIA_test exampleEnv ''aria-foo''"
    by simp
  have c: "toLowerCase ''aria-foo'' \<notin> validAriaProperties exampleEnv"
    by simp
  note r = unknown_name_collected_and_marked [OF a b c, where tag = "''div''"
      and debugID = None and tag' = "''div''" and ps = "[(''aria-foo'', 1)]"
      and debugID' = None and s' = initial_state]
  from r v have "validateProperty exampleEnv ''div'' ''aria-foo'' None initial_state =
     (Inr False, \<lparr>warnedProperties = [''aria-foo'' \<mapsto> True], emitted = []\<rparr>)"
    by (simp add: initial_state_def)
  with r v show ?thesis
    by blast
qed

text \<open>
  C4. A call of \<open>validateProperties\<close> in a development build on an element that is not
  custom, with among the keys of its properties a name of the camel-case pattern that is
  not warned yet and whose canonical form \<open>aria-\<close> + lowercased suffix is not a key of
  the table. The call returns; among the diagnostics it adds, the "Invalid ARIA attribute"
  diagnostic with the authored name occurs once; the name is warned after the call; where
  a comma is no attribute-name character, that diagnostic is the only one added that
  reports the name, so the batched report does not list it. For the name alone,
  \<open>validateProperty\<close> emits the diagnostic, marks the name and returns \<open>true\<close> from the
  camel-case block; the name is not of the hyphenated pattern, and the loop of the call
  returns a list of collected names without it.
\<close>

theorem camel_case_unknown_reported:
  assumes "DEV env" and "\<not> isCustomComponent env tag ps" and "name \<in> fst ` set ps"
    and "\<not> warned s name" and "rARIACamel_test env name"
    and "''aria-'' @ toLowerCase (slice 4 name) \<notin> validAriaProperties env"
  shows "returned (validateProperties env tag ps debugID s) = Inr () \<and>
    count_list (added s (state_after (validateProperties env tag ps debugID s)))
      (Warning ''Invalid ARIA attribute `%s`. ARIA attributes follow the pattern aria-* and must be lowercase.%s''
         [name, getStackAddendum env debugID]) = 1 \<and>
    warned (state_after (validateProperties env tag ps debugID s)) name \<and>
    (\<not> ATTRIBUTE_NAME_CHAR env (CHR '','') \<longrightarrow>
       filter (cites name) (added s (state_after (validateProperties env tag ps debugID s))) =
         [Warning ''Invalid ARIA attribute `%s`. ARIA attributes follow the pattern aria-* and must be lowercase.%s''
            [name, getStackAddendum env debugID]]) \<and>
    validateProperty env tag name debugID s =
      (Inr True, s\<lparr>warnedProperties := (warnedProperties s)(name \<mapsto> True),
                   emitted := emitted s @
                     [Warning ''Invalid ARIA attribute `%s`. ARIA attributes follow the pattern aria-* and must be lowercase.%s''
                        [name, getStackAddendum env debugID]]\<rparr>) \<and>
    camelCheck env name debugID s = Some (validateProperty env tag name debugID s) \<and>
    \<not> rARIA_test env name \<and>
    (\<exists>invalid s1. forIn env tag debugID (map fst ps) ([], s) = (Inr invalid, s1) \<and>
       name \<notin> set invalid)"
proof -
  let ?fmt = "''Invalid ARIA attribute `%s`. ARIA attributes follow the pattern aria-* and must be lowercase.%s''"
  let ?W = "Warning ?fmt [name, getStackAddendum env debugID]"
  let ?s' = "validatePropertiesDev env tag ps debugID s"
  have fmt: "?fmt \<in> perNameFormats"
    by (simp add: perNameFormats_def)
  have rep: "validatePropertyDev env tag name debugID s' =
      (True, mark_warned name (warning False ?fmt [name, getStackAddendum env debugID] s'))"
    if "\<not> warned s' name" for s'
    using that assms(5,6) by (rule validatePropertyDev_camel_unknown)
  have v: "validateProperties env tag ps debugID s =
      \<lparr>returned = Inr (), props_after = ps, state_after = ?s'\<rparr>"
    using assms(1) by (rule validateProperties_DEV)
  have one: "count_list (added s ?s') ?W = 1"
    using assms(2,3,4) fmt rep by (rule validatePropertiesDev_reports_one)
  have in_w: "?W \<in> set (added s ?s') \<and> warned ?s' name"
    using assms(2,3,4) rep by (rule validatePropertiesDev_reports)
  have only: "filter (cites name) (added s ?s') = [?W]"
    if nc: "\<not> ATTRIBUTE_NAME_CHAR env (CHR '','')"
    using nc assms(4) fmt in_w by (intro validatePropertiesDev_reports_once) simp_all
  have p: "validateProperty env tag name debugID s =
      (Inr True, mark_warned name (warning False ?fmt [name, getStackAddendum env debugID] s))"
    using assms(1) rep [OF assms(4)] by (simp add: validateProperty_DEV)
  have blk: "camelCheck env name debugID s = Some (validateProperty env tag name debugID s)"
    using assms(1,4,5,6) by (simp add: validateProperty_def camelCheck_def)
  have nh: "\<not> rARIA_test env name"
    using assms(5) by (rule camel_not_hyphen)
  have "forIn env tag debugID (map fst ps) ([], s) =
      (Inr (fst (forInDev env tag debugID (map fst ps) ([], s))),
       snd (forInDev env tag debugID (map fst ps) ([], s)))"
    using assms(1) by (rule forIn_DEV)
  moreover have "name \<notin> set (fst (forInDev env tag debugID (map fst ps) ([], s)))"
    using nh by (rule forInDev_not_collected)
  ultimately have loop: "\<exists>invalid s1. forIn env tag debugID (map fst ps) ([], s) = (Inr invalid, s1) \<and>
      name \<notin> set invalid"
    by blast
  from one in_w only p blk nh loop show ?thesis
    unfolding v by (simp add: mark_warned_def warning_def)
qed

theorem camel_case_unknown_reported_witness:
  "DEV exampleEnv \<and>
   \<not> isCustomComponent exampleEnv ''div'' [(''ariaFooBar'', 1), (''aria-foo'', 2)] \<and>
   ''ariaFooBar'' \<in> fst ` set [(''ariaFooBar'', 1::nat), (''aria-foo'', 2)] \<and>
   \<not> ATTRIBUTE_NAME_CHAR exampleEnv (CHR '','') \<and>
   emitted (state_after (validateProperties exampleEnv ''div''
       [(''ariaFooBar'', 1), (''aria-foo'', 2)] None initial_state)) =
     [Warning ''Invalid ARIA attribute `%s`. ARIA attributes follow the pattern aria-* and must be lowercase.%s''
        [''ariaFooBar'', ''''],
      Warning ''Invalid aria prop %s on <%s> tag. For details, see https://fb.me/invalid-aria-prop%s''
        [''`aria-foo`'', ''div'', '''']] \<and>
   returned (validateProperties exampleEnv ''div''
       [(''ariaFooBar'', 1), (''aria-foo'', 2)] None initial_state) = Inr () \<and>
   count_list (added initial_state (state_after (validateProperties exampleEnv ''div''
       [(''ariaFooBar'', 1), (''aria-foo'', 2)] None initial_state)))
     (Warning ''Invalid ARIA attribute `%s`. ARIA attributes follow the pattern aria-* and must be lowercase.%s''
        [''ariaFooBar'', '''']) = 1 \<and>
   warned (state_after (validateProperties exampleEnv ''div''
       [(''ariaFooBar'', 1), (''aria-foo'', 2)] None initial_state)) ''ariaFooBar'' \<and>
   filter (cites ''ariaFooBar'') (added initial_state (state_after (validateProperties exampleEnv
       ''div'' [(''ariaFooBar'', 1), (''aria-foo'', 2)] None initial_state))) =
     [Warning ''Invalid ARIA attribute `%s`. ARIA attributes follow the pattern aria-* and must be lowercase.%s''
        [''ariaFooBar'', '''']] \<and>
   validateProperty exampleEnv ''div'' ''ariaFooBar'' None initial_state =
     (Inr True, \<lparr>warnedProperties = [''ariaFooBar'' \<mapsto> True],
                 emitted =
                   [Warning ''Invalid ARIA attribute `%s`. ARIA attributes follow the pattern aria-* and must be lowercase.%s''
                      [''ariaFooBar'', '''']]\<rparr>) \<and>
   \<not> rARIA_test exampleEnv ''ariaFooBar''"
proof -
  let ?ps = "[(''ariaFooBar'', 1::nat), (''aria-foo'', 2)]"
  have v: "DEV exampleEnv"
    by simp
  have n: "\<not> isCustomComponent exampleEnv ''div'' ?ps"
    by simp
  have k: "''ariaFooBar'' \<in> fst ` set ?ps"
    by simp
  have a: "\<not> warned initial_state ''ariaFooBar''"
    by simp
  have b: "rARIACamel_test exampleEnv ''ariaFooBar''"
    by simp
  have c: "''aria-'' @ toLowerCase (slice 4 ''ariaFooBar'') \<notin> validAriaProperties exampleEnv"
    by (simp add: slice_def)
  have nc: "\<not> ATTRIBUTE_NAME_CHAR exampleEnv (CHR '','')"
    by simp
  have e: "emitted (state_after (validateProperties exampleEnv ''div'' ?ps None initial_state)) =
     [Warning ''Invalid ARIA attribute `%s`. ARIA attributes follow the pattern aria-* and must be lowercase.%s''
        [''ariaFooBar'', ''''],
      Warning ''Invalid aria prop %s on <%s> tag. For details, see https://fb.me/invalid-aria-prop%s''
        [''`aria-foo`'', ''div'', '''']]"
    by (simp add: run_example slice_def camel_not_hyphen)
  note r = camel_case_unknown_reported [OF v n k a b c, of None]
  from r nc have "returned (validateProperties exampleEnv ''div'' ?ps None initial_state) = Inr ()"
    and "count_list (added initial_state (state_after (validateProperties exampleEnv ''div''
       ?ps None initial_state)))
     (Warning ''Invalid ARIA attribute `%s`. ARIA attributes follow the pattern aria-* and must be lowercase.%s''
        [''ariaFooBar'', '''']) = 1"
    and "warned (state_after (validateProperties exampleEnv ''div'' ?ps None initial_state))
      ''ariaFooBar''"
    and "filter (cites ''ariaFooBar'') (added initial_state (state_after (validateProperties
       exampleEnv ''div'' ?ps None initial_state))) =
     [Warning ''Invalid ARIA attribute `%s`. ARIA attributes follow the pattern aria-* and must be lowercase.%s''
        [''ariaFooBar'', '''']]"
    and "validateProperty exampleEnv ''div'' ''ariaFooBar'' None initial_state =
     (Inr True, \<lparr>warnedProperties = [''ariaFooBar'' \<mapsto> True],
                 emitted =
                   [Warning ''Invalid ARIA attribute `%s`. ARIA attributes follow the pattern aria-* and must be lowercase.%s''
                      [''ariaFooBar'', '''']]\<rparr>)"
    and "\<not> rARIA_test exampleEnv ''ariaFooBar''"
    by (simp_all add: initial_state_def)
  with v n k nc e show ?thesis
    by (intro conjI) assumption+
qed

text \<open>
  C5. A call of \<open>validateProperties\<close> in a development build on an element that is not
  custom, with among the keys of its properties a name of the hyphenated pattern that is
  not warned yet, whose lowercased form is a key of the table and differs from the name
  as authored. The call returns; among the diagnostics it adds, the diagnostic "Unknown
  ARIA attribute ... Did you mean ...?" with the authored name and the lowercased name
  occurs once; the authored name is warned after the call; and, where a comma is no
  attribute-name character, that diagnostic is the only one added that reports the name.
  For the name alone, \<open>validateProperty\<close> emits the diagnostic, marks the name and returns
  \<open>true\<close>.
\<close>

theorem wrong_case_suggestion:
  assumes "DEV env" and "\<not> isCustomComponent env tag ps" and "name \<in> fst ` set ps"
    and "\<not> warned s name" and "rARIA_test env name"
    and "toLowerCase name \<in> validAriaProperties env" and "toLowerCase name \<noteq> name"
  shows "returned (validateProperties env tag ps debugID s) = Inr () \<and>
    count_list (added s (state_after (validateProperties env tag ps debugID s)))
      (Warning ''Unknown ARIA attribute `%s`. Did you mean `%s`?%s''
         [name, toLowerCase name, getStackAddendum env debugID]) = 1 \<and>
    warned (state_after (validateProperties env tag ps debugID s)) name \<and>
    (\<not> ATTRIBUTE_NAME_CHAR env (CHR '','') \<longrightarrow>
       filter (cites name) (added s (state_after (validateProperties env tag ps debugID s))) =
         [Warning ''Unknown ARIA attribute `%s`. Did you mean `%s`?%s''
            [name, toLowerCase name, getStackAddendum env debugID]]) \<and>
    validateProperty env tag name debugID s =
      (Inr True, s\<lparr>warnedProperties := (warnedProperties s)(name \<mapsto> True),
                   emitted := emitted s @
                     [Warning ''Unknown ARIA attribute `%s`. Did you mean `%s`?%s''
                        [name, toLowerCase name, getStackAddendum env debugID]]\<rparr>)"
proof -
  let ?fmt = "''Unknown ARIA attribute `%s`. Did you mean `%s`?%s''"
  let ?W = "Warning ?fmt [name, toLowerCase name, getStackAddendum env debugID]"
  let ?s' = "validatePropertiesDev env tag ps debugID s"
  have fmt: "?fmt \<in> perNameFormats"
    by (simp add: perNameFormats_def)
  have rep: "validatePropertyDev env tag name debugID s' =
      (True, mark_warned name
        (warning False ?fmt [name, toLowerCase name, getStackAddendum env debugID] s'))"
    if "\<not> warned s' name" for s'
    using that assms(5,6,7) by (rule validatePropertyDev_hyphen_case)
  have v: "validateProperties env tag ps debugID s =
      \<lparr>returned = Inr (), props_after = ps, state_after = ?s'\<rparr>"
    using assms(1) by (rule validateProperties_DEV)
  have one: "count_list (added s ?s') ?W = 1"
    using assms(2,3,4) fmt rep by (rule validatePropertiesDev_reports_one)
  have in_w: "?W \<in> set (added s ?s') \<and> warned ?s' name"
    using assms(2,3,4) rep by (rule validatePropertiesDev_reports)
  have only: "filter (cites name) (added s ?s') = [?W]"
    if nc: "\<not> ATTRIBUTE_NAME_CHAR env (CHR '','')"
    using nc assms(4) fmt in_w by (intro validatePropertiesDev_reports_once) simp_all
  have p: "validateProperty env tag name debugID s =
      (Inr True, mark_warned name
        (warning False ?fmt [name, toLowerCase name, getStackAddendum env debugID] s))"
    using assms(1) rep [OF assms(4)] by (simp add: validateProperty_DEV)
  from one in_w only p show ?thesis
    unfolding v by (simp add: mark_warned_def warning_def)
qed

theorem wrong_case_suggestion_witness:
  "DEV exampleEnv \<and>
   \<not> isCustomComponent exampleEnv ''div'' [(''className'', 1), (''aria-Hidden'', 2)] \<and>
   ''aria-Hidden'' \<in> fst ` set [(''className'', 1::nat), (''aria-Hidden'', 2)] \<and>
   \<not> ATTRIBUTE_NAME_CHAR exampleEnv (CHR '','') \<and>
   emitted (state_after (validateProperties exampleEnv ''div''
       [(''className'', 1), (''aria-Hidden'', 2)] None initial_state)) =
     [Warning ''Unknown ARIA attribute `%s`. Did you mean `%s`?%s''
        [''aria-Hidden'', ''aria-hidden'', '''']] \<and>
   returned (validateProperties exampleEnv ''div''
       [(''className'', 1), (''aria-Hidden'', 2)] None initial_state) = Inr () \<and>
   count_list (added initial_state (state_after (validateProperties exampleEnv ''div''
       [(''className'', 1), (''aria-Hidden'', 2)] None initial_state)))
     (Warning ''Unknown ARIA attribute `%s`. Did you mean `%s`?%s''
        [''aria-Hidden'', ''aria-hidden'', '''']) = 1 \<and>
   warned (state_after (validateProperties exampleEnv ''div''
       [(''className'', 1), (''aria-Hidden'', 2)] None initial_state)) ''aria-Hidden'' \<and>
   filter (cites ''aria-Hidden'') (added initial_state (state_after (validateProperties exampleEnv
       ''div'' [(''className'', 1), (''aria-Hidden'', 2)] None initial_state))) =
     [Warning ''Unknown ARIA attribute `%s`. Did you mean `%s`?%s''
        [''aria-Hidden'', ''aria-hidden'', '''']] \<and>
   validateProperty exampleEnv ''div'' ''aria-Hidden'' None initial_state =
     (Inr True, \<lparr>warnedProperties = [''aria-Hidden'' \<mapsto> True],
                 emitted =
                   [Warning ''Unknown ARIA attribute `%s`. Did you mean `%s`?%s''
                      [''aria-Hidden'', ''aria-hidden'', '''']]\<rparr>)"
proof -
  let ?ps = "[(''className'', 1::nat), (''aria-Hidden'', 2)]"
  have v: "DEV exampleEnv"
    by simp
  have n: "\<not> isCustomComponent exampleEnv ''div'' ?ps"
    by simp
  have k: "''aria-Hidden'' \<in> fst ` set ?ps"
    by simp
  have a: "\<not> warned initial_state ''aria-Hidden''"
    by simp
  have b: "rARIA_test exampleEnv ''aria-Hidden''"
    by simp
  have c: "toLowerCase ''aria-Hidden'' \<in> validAriaProperties exampleEnv"
    by simp
  have d: "toLowerCase ''aria-Hidden'' \<noteq> ''aria-Hidden''"
    by simp
  have nc: "\<not> ATTRIBUTE_NAME_CHAR exampleEnv (CHR '','')"
    by simp
  have e: "emitted (state_after (validateProperties exampleEnv ''div'' ?ps None initial_state)) =
     [Warning ''Unknown ARIA attribute `%s`. Did you mean `%s`?%s''
        [''aria-Hidden'', ''aria-hidden'', '''']]"
    by (simp add: run_example)
  note r = wrong_case_suggestion [OF v n k a b c d, of None]
  from r nc have "returned (validateProperties exampleEnv ''div'' ?ps None initial_state) = Inr ()"
    and "count_list (added initial_state (state_after (validateProperties exampleEnv ''div''
       ?ps None initial_state)))
     (Warning ''Unknown ARIA attribute `%s`. Did you mean `%s`?%s''
        [''aria-Hidden'', ''aria-hidden'', '''']) = 1"
    and "warned (state_after (validateProperties exampleEnv ''div'' ?ps None initial_state))
      ''aria-Hidden''"
    and "filter (cites ''aria-Hidden'') (added initial_state (state_after (validateProperties
       exampleEnv ''div'' ?ps None initial_state))) =
     [Warning ''Unknown ARIA attribute `%s`. Did you mean `%s`?%s''
        [''aria-Hidden'', ''aria-hidden'', '''']]"
    and "validateProperty exampleEnv ''div'' ''aria-Hidden'' None initial_state =
     (Inr True, \<lparr>warnedProperties = [''aria-Hidden'' \<mapsto> True],
                 emitted =
                   [Warning ''Unknown ARIA attribute `%s`. Did you mean `%s`?%s''
                      [''aria-Hidden'', ''aria-hidden'', '''']]\<rparr>)"
    by (simp_all add: initial_state_def)
  with v n k nc e show ?thesis
    by (intro conjI) assumption+
qed

text \<open>
  C6. When \<open>isCustomComponent\<close> holds of the tag and the properties, \<open>validateProperties\<close>
  returns at once, in every build: the call returns, the properties and the state after
  it are those before it, so nothing is emitted and the cache is as it was, whatever the
  properties are.
\<close>

theorem custom_element_bypass:
  assumes "isCustomComponent env tag ps"
  shows "validateProperties env tag ps debugID s =
      \<lparr>returned = Inr (), props_after = ps, state_after = s\<rparr> \<and>
    added s (state_after (validateProperties env tag ps debugID s)) = [] \<and>
    warnedProperties (state_after (validateProperties env tag ps debugID s)) =
      warnedProperties s"
  using assms by (simp add: validateProperties_def)

theorem custom_element_bypass_witness:
  "isCustomComponent exampleEnv ''my-element'' [(''aria-foo'', 1), (''ariaFooBar'', 2)] \<and>
   validateProperties exampleEnv ''my-element'' [(''aria-foo'', 1), (''ariaFooBar'', 2)] None
     initial_state =
     \<lparr>returned = Inr (), props_after = [(''aria-foo'', 1), (''ariaFooBar'', 2)],
      state_after = initial_state\<rparr> \<and>
   added initial_state
     (state_after (validateProperties exampleEnv ''my-element''
        [(''aria-foo'', 1), (''ariaFooBar'', 2)] None initial_state)) = [] \<and>
   warnedProperties
     (state_after (validateProperties exampleEnv ''my-element''
        [(''aria-foo'', 1), (''ariaFooBar'', 2)] None initial_state)) =
     warnedProperties initial_state \<and>
   isCustomComponent productionEnv ''my-element'' [(''aria-foo'', 1)] \<and>
   validateProperties productionEnv ''my-element'' [(''aria-foo'', 1)] None initial_state =
     \<lparr>returned = Inr (), props_after = [(''aria-foo'', 1)], state_after = initial_state\<rparr>"
proof -
  have a: "isCustomComponent exampleEnv ''my-element'' [(''aria-foo'', 1), (''ariaFooBar'', 2)]"
    by simp
  have b: "isCustomComponent productionEnv ''my-element'' [(''aria-foo'', 1)]"
    by simp
  note ra = custom_element_bypass [OF a, of None initial_state]
  note rb = custom_element_bypass [OF b, of None initial_state]
  from a b ra rb show ?thesis
    by blast
qed

text \<open>
  C7. A name that is of neither pattern, or that is a key of the table and in lowercase:
  \<open>validateProperty\<close> leaves the state as it is and does not return \<open>false\<close>, so that
  nothing is emitted and the name is not collected; it returns \<open>true\<close> in a development
  build, and in every build for a name of neither pattern. Where a comma is no
  attribute-name character, no diagnostic that any call of \<open>validateProperties\<close> adds
  reports the name.
\<close>

theorem unrelated_or_canonical_name_unreported:
  assumes "(\<not> rARIACamel_test env n \<and> \<not> rARIA_test env n) \<or>
    (n \<in> validAriaProperties env \<and> toLowerCase n = n)"
  shows "snd (validateProperty env tag n debugID s) = s \<and>
    fst (validateProperty env tag n debugID s) \<noteq> Inr False \<and>
    (DEV env \<or> (\<not> rARIACamel_test env n \<and> \<not> rARIA_test env n) \<longrightarrow>
       validateProperty env tag n debugID s = (Inr True, s)) \<and>
    (\<not> ATTRIBUTE_NAME_CHAR env (CHR '','') \<longrightarrow>
       filter (cites n)
         (added s' (state_after (validateProperties env tag' ps debugID' s'))) = [])"
proof -
  from assms have sil: "silent env n"
  proof
    assume "\<not> rARIACamel_test env n \<and> \<not> rARIA_test env n"
    then show ?thesis by (simp add: silent_def)
  next
    assume k: "n \<in> validAriaProperties env \<and> toLowerCase n = n"
    then have "\<not> rARIACamel_test env n"
      using lowercase_not_camel by blast
    with k show ?thesis by (simp add: silent_def)
  qed
  then have dev: "validatePropertyDev env tag n debugID s = (True, s)"
    by (rule validatePropertyDev_silent)
  have one: "validateProperty env tag n debugID s = (Inr True, s)"
    if "DEV env \<or> (\<not> rARIACamel_test env n \<and> \<not> rARIA_test env n)"
  proof (cases "DEV env")
    case True
    with dev show ?thesis by (simp add: validateProperty_DEV)
  next
    case False
    with that show ?thesis by (simp add: validateProperty_production)
  qed
  have same: "snd (validateProperty env tag n debugID s) = s \<and>
      fst (validateProperty env tag n debugID s) \<noteq> Inr False"
  proof (cases "DEV env")
    case True
    with one show ?thesis by simp
  next
    case False
    then show ?thesis by (simp add: validateProperty_production)
  qed
  have "filter (cites n) (added s' (state_after (validateProperties env tag' ps debugID' s'))) = []"
    if nc: "\<not> ATTRIBUTE_NAME_CHAR env (CHR '','')"
  proof (cases "DEV env")
    case False
    then show ?thesis by (simp add: state_after_validateProperties)
  next
    case True
    obtain ds where r: "callReport env s' (validatePropertiesDev env tag' ps debugID' s') ds"
      using validatePropertiesDev_report [OF nc] by blast
    then have a: "added s' (validatePropertiesDev env tag' ps debugID' s') = ds"
      by (simp add: callReport_def added_append)
    from r sil have "\<not> 0 < length (filter (cites n) ds)"
      unfolding callReport_def by blast
    with a True show ?thesis by (simp add: state_after_validateProperties)
  qed
  with one same show ?thesis by blast
qed

theorem unrelated_or_canonical_name_unreported_witness:
  "\<not> rARIACamel_test exampleEnv ''className'' \<and> \<not> rARIA_test exampleEnv ''className'' \<and>
   validateProperty exampleEnv ''div'' ''className'' None initial_state =
     (Inr True, initial_state) \<and>
   filter (cites ''className'')
     (added initial_state
        (state_after (validateProperties exampleEnv ''div'' [(''className'', 1), (''aria-foo'', 2)]
           None initial_state))) = [] \<and>
   ''aria-hidden'' \<in> validAriaProperties exampleEnv \<and>
   toLowerCase ''aria-hidden'' = ''aria-hidden'' \<and>
   validateProperty exampleEnv ''div'' ''aria-hidden'' None initial_state =
     (Inr True, initial_state) \<and>
   filter (cites ''aria-hidden'')
     (added initial_state
        (state_after (validateProperties exampleEnv ''div'' [(''aria-hidden'', 1), (''aria-foo'', 2)]
           None initial_state))) = [] \<and>
   emitted (state_after (validateProperties exampleEnv ''div'' [(''aria-hidden'', 1), (''aria-foo'', 2)]
     None initial_state)) =
     [Warning ''Invalid aria prop %s on <%s> tag. For details, see https://fb.me/invalid-aria-prop%s''
        [''`aria-foo`'', ''div'', '''']]"
proof -
  have nc: "\<not> ATTRIBUTE_NAME_CHAR exampleEnv (CHR '','')"
    by simp
  have v: "DEV exampleEnv"
    by simp
  have a: "(\<not> rARIACamel_test exampleEnv ''className'' \<and> \<not> rARIA_test exampleEnv ''className'') \<or>
      (''className'' \<in> validAriaProperties exampleEnv \<and> toLowerCase ''className'' = ''className'')"
    by simp
  have b: "(\<not> rARIACamel_test exampleEnv ''aria-hidden'' \<and> \<not> rARIA_test exampleEnv ''aria-hidden'') \<or>
      (''aria-hidden'' \<in> validAriaProperties exampleEnv \<and> toLowerCase ''aria-hidden'' = ''aria-hidden'')"
    by simp
  note ra = unrelated_or_canonical_name_unreported [OF a, where tag = "''div''" and debugID = None
      and s = initial_state and s' = initial_state and tag' = "''div''" and debugID' = None
      and ps = "[(''className'', 1), (''aria-foo'', 2)]"]
  note rb = unrelated_or_canonical_name_unreported [OF b, where tag = "''div''" and debugID = None
      and s = initial_state and s' = initial_state and tag' = "''div''" and debugID' = None
      and ps = "[(''aria-hidden'', 1), (''aria-foo'', 2)]"]
  have p: "\<not> rARIACamel_test exampleEnv ''className''" "\<not> rARIA_test exampleEnv ''className''"
    "''aria-hidden'' \<in> validAriaProperties exampleEnv"
    "toLowerCase ''aria-hidden'' = ''aria-hidden''"
    by simp_all
  have e: "emitted (state_after (validateProperties exampleEnv ''div''
      [(''aria-hidden'', 1), (''aria-foo'', 2)] None initial_state)) =
     [Warning ''Invalid aria prop %s on <%s> tag. For details, see https://fb.me/invalid-aria-prop%s''
        [''`aria-foo`'', ''div'', '''']]"
    by (simp add: run_example)
  from ra rb nc v p e show ?thesis
    by blast
qed




text \<open>
  C9. The cache of the initial state is empty. In every state that a process reaches,
  every value stored in the cache is \<open>true\<close>, so that a name is a key of the cache exactly
  when the check at the head of \<open>validateProperty\<close> finds it warned; and each of the three
  exported functions leaves every entry of the cache as it is, adding entries at most,
  whether it returns or throws.
\<close>

theorem warned_cache_grows:
  "warnedProperties initial_state = Map.empty \<and>
   (reachable env s \<longrightarrow>
      (\<forall>k v. warnedProperties s k = Some v \<longrightarrow> v = True) \<and>
      (\<forall>k. k \<in> dom (warnedProperties s) \<longleftrightarrow> warned s k) \<and>
      warnedProperties s \<subseteq>\<^sub>m
        warnedProperties (state_after (validateProperties env tag ps debugID s)) \<and>
      warnedProperties s \<subseteq>\<^sub>m
        warnedProperties (snd (onBeforeMountComponent env debugID element s)) \<and>
      warnedProperties s \<subseteq>\<^sub>m
        warnedProperties (snd (onBeforeUpdateComponent env debugID element s)))"
proof -
  have "warnedProperties initial_state = Map.empty"
    by (simp add: initial_state_def)
  moreover have "(\<forall>k v. warnedProperties s k = Some v \<longrightarrow> v = True) \<and>
      (\<forall>k. k \<in> dom (warnedProperties s) \<longleftrightarrow> warned s k) \<and>
      warnedProperties s \<subseteq>\<^sub>m
        warnedProperties (state_after (validateProperties env tag ps debugID s)) \<and>
      warnedProperties s \<subseteq>\<^sub>m
        warnedProperties (snd (onBeforeMountComponent env debugID element s)) \<and>
      warnedProperties s \<subseteq>\<^sub>m
        warnedProperties (snd (onBeforeUpdateComponent env debugID element s))"
    if r: "reachable env s"
  proof -
    from r have t: "\<forall>k v. warnedProperties s k = Some v \<longrightarrow> v"
      by (rule reachable_cache_true)
    then have d: "\<forall>k. k \<in> dom (warnedProperties s) \<longleftrightarrow> warned s k"
      by (auto simp add: warned_def dom_def split: option.splits)
    have v: "warnedProperties s \<subseteq>\<^sub>m
        warnedProperties (state_after (validateProperties env tag ps debugID s))"
      using exported_steps_onlyAdds(1) [of ps s env tag debugID] t onlyAdds_cache by blast
    have m: "warnedProperties s \<subseteq>\<^sub>m
        warnedProperties (snd (onBeforeMountComponent env debugID element s))"
      using exported_steps_onlyAdds(2) [of s env debugID element] t onlyAdds_cache by blast
    have u: "warnedProperties s \<subseteq>\<^sub>m
        warnedProperties (snd (onBeforeUpdateComponent env debugID element s))"
      using exported_steps_onlyAdds(3) [of s env debugID element] t onlyAdds_cache by blast
    from t d v m u show ?thesis by simp
  qed
  ultimately show ?thesis by blast
qed

theorem warned_cache_grows_witness:
  "warnedProperties initial_state = Map.empty \<and>
   reachable exampleEnv
     (state_after (validateProperties exampleEnv ''div'' [(''aria-foo'', 1), (''className'', 2)]
        None initial_state)) \<and>
   warnedProperties
     (state_after (validateProperties exampleEnv ''div'' [(''aria-foo'', 1), (''className'', 2)]
        None initial_state)) ''aria-foo'' = Some True \<and>
   warnedProperties
     (state_after (validateProperties exampleEnv ''div'' [(''aria-foo'', 1), (''className'', 2)]
        None initial_state)) \<subseteq>\<^sub>m
   warnedProperties
     (state_after (validateProperties exampleEnv ''span'' [(''aria-foo'', 1), (''ariaFooBar'', 3)]
        None
        (state_after (validateProperties exampleEnv ''div''
           [(''aria-foo'', 1), (''className'', 2)] None initial_state)))) \<and>
   warnedProperties
     (state_after (validateProperties exampleEnv ''span'' [(''aria-foo'', 1), (''ariaFooBar'', 3)]
        None
        (state_after (validateProperties exampleEnv ''div''
           [(''aria-foo'', 1), (''className'', 2)] None initial_state)))) ''aria-foo'' =
     Some True"
proof -
  let ?s1 = "state_after (validateProperties exampleEnv ''div''
    [(''aria-foo'', 1), (''className'', 2)] None initial_state)"
  let ?s2 = "state_after (validateProperties exampleEnv ''span''
    [(''aria-foo'', 1), (''ariaFooBar'', 3)] None ?s1)"
  have re: "reachable exampleEnv ?s1"
    by (intro reachable.validate reachable.start)
  have w1: "warnedProperties ?s1 ''aria-foo'' = Some True"
    by (simp add: run_example)
  note r = warned_cache_grows [where env = exampleEnv and s = ?s1 and tag = "''span''"
      and ps = "[(''aria-foo'', 1), (''ariaFooBar'', 3)]" and debugID = None]
  from r re have le: "warnedProperties ?s1 \<subseteq>\<^sub>m warnedProperties ?s2"
    by blast
  from w1 have "''aria-foo'' \<in> dom (warnedProperties ?s1)"
    by (rule domI)
  with le have "warnedProperties ?s1 ''aria-foo'' = warnedProperties ?s2 ''aria-foo''"
    unfolding map_le_def by (rule bspec)
  with w1 have w2: "warnedProperties ?s2 ''aria-foo'' = Some True"
    by (simp only:)
  from r have e: "warnedProperties initial_state = Map.empty"
    by (rule conjunct1)
  from e re w1 le w2 show ?thesis
    by (intro conjI) assumption+
qed

text \<open>
  C10. \<open>onBeforeMountComponent\<close> and \<open>onBeforeUpdateComponent\<close> return and leave the state
  as it is, emitting nothing, for a \<open>null\<close> element and for an element whose type is not a
  string, and in a production build; in a development build, for an element whose type is
  a string, they complete as \<open>validateProperties\<close> does on the tag and the properties of
  the element, and leave the state it leaves.
\<close>

theorem stack_hooks_guard:
  "(element = None \<or> (\<exists>el. element = Some el \<and> element_type el = ComponentType) \<or> \<not> DEV env \<longrightarrow>
      onBeforeMountComponent env debugID element s = (Inr (), s) \<and>
      onBeforeUpdateComponent env debugID element s = (Inr (), s)) \<and>
   (DEV env \<and> element_type el = StringType tag \<longrightarrow>
      onBeforeMountComponent env debugID (Some el) s =
        (returned (validateProperties env tag (element_props el) debugID s),
         state_after (validateProperties env tag (element_props el) debugID s)) \<and>
      onBeforeUpdateComponent env debugID (Some el) s =
        (returned (validateProperties env tag (element_props el) debugID s),
         state_after (validateProperties env tag (element_props el) debugID s)))"
  by (auto simp add: onBeforeMountComponent_def onBeforeUpdateComponent_def)

theorem stack_hooks_guard_witness:
  "onBeforeMountComponent exampleEnv (Some 7) None initial_state = (Inr (), initial_state) \<and>
   onBeforeUpdateComponent exampleEnv (Some 7) None initial_state = (Inr (), initial_state) \<and>
   onBeforeMountComponent exampleEnv (Some 7)
     (Some \<lparr>element_type = ComponentType, element_props = [(''aria-foo'', 1)]\<rparr>) initial_state =
     (Inr (), initial_state) \<and>
   onBeforeUpdateComponent exampleEnv (Some 7)
     (Some \<lparr>element_type = ComponentType, element_props = [(''aria-foo'', 1)]\<rparr>) initial_state =
     (Inr (), initial_state) \<and>
   onBeforeMountComponent productionEnv (Some 7)
     (Some \<lparr>element_type = StringType ''div'', element_props = [(''aria-foo'', 1)]\<rparr>)
     initial_state = (Inr (), initial_state) \<and>
   onBeforeMountComponent exampleEnv (Some 7)
     (Some \<lparr>element_type = StringType ''div'', element_props = [(''aria-foo'', 1)]\<rparr>)
     initial_state =
     (returned (validateProperties exampleEnv ''div'' [(''aria-foo'', 1)] (Some 7) initial_state),
      state_after (validateProperties exampleEnv ''div'' [(''aria-foo'', 1)] (Some 7)
        initial_state)) \<and>
   onBeforeUpdateComponent exampleEnv (Some 7)
     (Some \<lparr>element_type = StringType ''div'', element_props = [(''aria-foo'', 1)]\<rparr>)
     initial_state =
     (Inr (),
      \<lparr>warnedProperties = [''aria-foo'' \<mapsto> True],
       emitted =
         [Warning ''Invalid aria prop %s on <%s> tag. For details, see https://fb.me/invalid-aria-prop%s''
            [''`aria-foo`'', ''div'', '''']]\<rparr>)"
proof -
  let ?c = "\<lparr>element_type = ComponentType, element_props = [(''aria-foo'', 1::nat)]\<rparr>"
  let ?d = "\<lparr>element_type = StringType ''div'', element_props = [(''aria-foo'', 1::nat)]\<rparr>"
  note n = stack_hooks_guard [where element = None and el = ?c and env = exampleEnv
      and debugID = "Some 7" and s = initial_state and tag = "''div''"]
  note c = stack_hooks_guard [where element = "Some ?c" and el = ?c and env = exampleEnv
      and debugID = "Some 7" and s = initial_state and tag = "''div''"]
  note d = stack_hooks_guard [where element = None and el = ?d and env = exampleEnv
      and debugID = "Some 7" and s = initial_state and tag = "''div''"]
  note p = stack_hooks_guard [where element = "Some ?d" and el = ?d and env = productionEnv
      and debugID = "Some 7" and s = initial_state and tag = "''div''"]
  have e: "validateProperties exampleEnv ''div'' [(''aria-foo'', 1::nat)] (Some 7) initial_state =
     \<lparr>returned = Inr (), props_after = [(''aria-foo'', 1)],
      state_after =
        \<lparr>warnedProperties = [''aria-foo'' \<mapsto> True],
         emitted =
           [Warning ''Invalid aria prop %s on <%s> tag. For details, see https://fb.me/invalid-aria-prop%s''
              [''`aria-foo`'', ''div'', '''']]\<rparr>\<rparr>"
    by (simp add: run_example mark_warned_def warning_def initial_state_def warned_def)
  from n c d p e show ?thesis
    by simp
qed

end
